theory Spec2Isabelle
  imports Complex_Main
begin

section \<open>Data model of \<open>WindowsStockMonitor\<close> (src/main.py)\<close>

text \<open>
  Prices and thresholds are Python floats; they are modelled as exact reals, so a
  comparison \<open>price > upper\<close> is the comparison of the numbers (NaN and the infinities are
  outside the model). Timestamps are abstract instants. An exception is a value carrying
  its message.
\<close>

type_synonym symbol = string
type_synonym timestamp = nat
type_synonym row = "timestamp \<times> real"

datatype exn = Exception string

text \<open>
  What one call \<open>self.ts.get_intraday(symbol=symbol, interval='1min')\<close> does: it raises
  (also covers an exception of \<open>float(data['4. close'][0])\<close>, raised in the same
  \<open>try\<close>), or it returns a table whose rows are (index, closing price); the table is
  \<open>data.empty\<close> when it has no row.
\<close>

datatype response = Raises exn | Table "row list"

text \<open>What the SMTP session of \<open>send_email_alert\<close> does: the stage that raises, or delivery.\<close>

datatype smtp_outcome =
  ConnectFails exn | StarttlsFails exn | LoginFails exn | SendFails exn | Delivered

text \<open>
  The world outside the process. The provider and the mail server answer the n-th call made
  to them; \<open>py_float\<close> and \<open>py_int\<close> are Python's \<open>float(text)\<close> and \<open>int(text)\<close>, with
  \<open>None\<close> for \<open>ValueError\<close>; \<open>sleep_max\<close> is the largest number of seconds
  \<open>time.sleep\<close> accepts where the program runs (the clock of the interpreter is finite:
  with 64-bit nanoseconds on Linux, \<open>time.sleep(9223372036)\<close> raises).
\<close>

record env =
  get_intraday :: "symbol \<Rightarrow> nat \<Rightarrow> response"
  smtp :: "nat \<Rightarrow> smtp_outcome"
  py_float :: "string \<Rightarrow> real option"
  py_int :: "string \<Rightarrow> int option"
  sleep_max :: int

datatype kind = Upper | Lower

text \<open>
  An alert line \<open>f"ALERT: {symbol} ${price:.2f} > ${upper}"\<close> (or \<open><\<close> and \<open>lower\<close>) is
  kept as the values it interpolates.
\<close>

datatype alert = Alert symbol real kind real

datatype log_entry =
  Fetch_error symbol exn
| Alert_info alert
| Email_sent symbol
| Email_failed exn

datatype status = Idle | Monitoring symbol real

record threshold_cfg =
  upper :: "real option"
  lower :: "real option"

record email_cfg =
  sender :: string
  password :: string
  receiver :: string
  smtp_server :: string
  smtp_port :: nat

record email =
  mail_from :: string
  mail_to :: string
  mail_symbol :: symbol
  mail_price :: real
  mail_kind :: kind

record chart =
  points :: "row list"
  ma :: "real option list"
  upper_line :: "real option"
  lower_line :: "real option"

text \<open>
  The fields of the object, the widgets it writes, and the traces of its effects on the
  world: \<open>calls\<close> and \<open>smtp_calls\<close> count the provider calls and SMTP sessions made,
  \<open>slept\<close> lists the arguments of \<open>time.sleep\<close> in order, \<open>outbox\<close> the messages
  delivered.
\<close>

record monitor =
  running :: bool
  data :: "symbol \<rightharpoonup> row list"
  thresholds :: "symbol \<rightharpoonup> threshold_cfg"
  email_config :: "email_cfg option"
  alerts_list :: "alert list"
  log :: "log_entry list"
  status_var :: status
  canvas :: "chart option"
  start_button :: bool
  stop_button :: bool
  symbol_entry :: string
  upper_entry :: string
  lower_entry :: string
  interval_var :: string
  calls :: nat
  smtp_calls :: nat
  slept :: "int list"
  outbox :: "email list"

text \<open>The object after \<open>__init__\<close> and \<open>setup_gui\<close>.\<close>

definition init :: monitor where
  "init = \<lparr>running = False, data = Map.empty, thresholds = Map.empty, email_config = None,
     alerts_list = [], log = [], status_var = Idle, canvas = None,
     start_button = True, stop_button = False,
     symbol_entry = [], upper_entry = [], lower_entry = [], interval_var = ''60'',
     calls = 0, smtp_calls = 0, slept = [], outbox = []\<rparr>"

section \<open>\<open>fetch_price\<close>\<close>

text \<open>
  \<open>for _ in range(3)\<close>: the number is the attempts left. An exception is logged and
  followed by \<open>time.sleep(2)\<close>; an empty table falls through to the next attempt; the
  first row of a non-empty table is returned. \<open>None\<close> is the pair \<open>(None, None)\<close>.
\<close>

fun fetch_attempts :: "env \<Rightarrow> symbol \<Rightarrow> nat \<Rightarrow> monitor \<Rightarrow> row option \<times> monitor" where
  "fetch_attempts e symb 0 s = (None, s)"
| "fetch_attempts e symb (Suc n) s =
     (case get_intraday e symb (calls s) of
        Raises x \<Rightarrow>
          fetch_attempts e symb n
            (s\<lparr>calls := Suc (calls s), log := log s @ [Fetch_error symb x],
               slept := slept s @ [2]\<rparr>)
      | Table [] \<Rightarrow> fetch_attempts e symb n (s\<lparr>calls := Suc (calls s)\<rparr>)
      | Table (r # rs) \<Rightarrow> (Some r, s\<lparr>calls := Suc (calls s)\<rparr>))"

definition fetch_price :: "env \<Rightarrow> symbol \<Rightarrow> monitor \<Rightarrow> row option \<times> monitor" where
  "fetch_price e symb s = fetch_attempts e symb 3 s"

section \<open>\<open>send_email_alert\<close>\<close>

text \<open>
  A computation returns its value or the exception it raises, together with the object as
  it then is.
\<close>

type_synonym 'a result = "(exn + 'a) \<times> monitor"

definition bind :: "'a result \<Rightarrow> ('a \<Rightarrow> monitor \<Rightarrow> 'b result) \<Rightarrow> 'b result" where
  "bind m f = (case m of (Inl x, s) \<Rightarrow> (Inl x, s) | (Inr v, s) \<Rightarrow> f v s)"

text \<open>The body of the \<open>try\<close>: connect, \<open>starttls\<close>, \<open>login\<close>, \<open>send_message\<close>.\<close>

fun smtp_session :: "smtp_outcome \<Rightarrow> exn + unit" where
  "smtp_session (ConnectFails x) = Inl x"
| "smtp_session (StarttlsFails x) = Inl x"
| "smtp_session (LoginFails x) = Inl x"
| "smtp_session (SendFails x) = Inl x"
| "smtp_session Delivered = Inr ()"

text \<open>
  \<open>if not self.email_config: return\<close>, then the message, then the \<open>try\<close> with its
  \<open>except Exception\<close> handler. The message keeps the values the subject and the body
  interpolate (the body's \<open>datetime.now()\<close> is left out).
\<close>

definition send_email_alert :: "env \<Rightarrow> symbol \<Rightarrow> real \<Rightarrow> kind \<Rightarrow> monitor \<Rightarrow> unit result" where
  "send_email_alert e symb price k s =
     (case email_config s of
        None \<Rightarrow> (Inr (), s)
      | Some cfg \<Rightarrow>
          (let msg = \<lparr>mail_from = sender cfg, mail_to = receiver cfg, mail_symbol = symb,
                      mail_price = price, mail_kind = k\<rparr>;
               s1 = s\<lparr>smtp_calls := Suc (smtp_calls s)\<rparr>
           in case smtp_session (smtp e (smtp_calls s)) of
                Inr u \<Rightarrow> (Inr (), s1\<lparr>outbox := outbox s1 @ [msg], log := log s1 @ [Email_sent symb]\<rparr>)
              | Inl x \<Rightarrow> (Inr (), s1\<lparr>log := log s1 @ [Email_failed x]\<rparr>)))"

section \<open>\<open>update_data\<close>\<close>

text \<open>Python's truth value of \<open>None\<close> or a float: false for \<open>None\<close> and for \<open>0.0\<close>.\<close>

definition truthy :: "real option \<Rightarrow> bool" where
  "truthy v = (case v of None \<Rightarrow> False | Some x \<Rightarrow> x \<noteq> 0)"

text \<open>\<open>DataFrame.tail(n)\<close>: the last \<open>n\<close> rows.\<close>

definition tail_rows :: "nat \<Rightarrow> 'a list \<Rightarrow> 'a list" where
  "tail_rows n xs = drop (length xs - n) xs"

text \<open>
  Lines 173 to 177: an absent symbol starts from the empty frame, the new row is
  concatenated, and \<open>tail(50)\<close> is stored.
\<close>

definition append_row :: "row \<Rightarrow> row list option \<Rightarrow> row list" where
  "append_row r h = tail_rows 50 ((case h of None \<Rightarrow> [] | Some rows \<Rightarrow> rows) @ [r])"

text \<open>\<open>self.thresholds.get(symbol, {}).get('upper')\<close>, and the same for \<open>'lower'\<close>.\<close>

definition threshold_get :: "monitor \<Rightarrow> symbol \<Rightarrow> (threshold_cfg \<Rightarrow> real option) \<Rightarrow> real option" where
  "threshold_get s symb field = (case thresholds s symb of None \<Rightarrow> None | Some c \<Rightarrow> field c)"

text \<open>The three statements under each threshold test: alert list, log, e-mail.\<close>

definition raise_alert :: "env \<Rightarrow> symbol \<Rightarrow> real \<Rightarrow> kind \<Rightarrow> real \<Rightarrow> monitor \<Rightarrow> unit result" where
  "raise_alert e symb price k bound s =
     (let a = Alert symb price k bound
      in send_email_alert e symb price k
           (s\<lparr>alerts_list := alerts_list s @ [a], log := log s @ [Alert_info a]\<rparr>))"

definition update_data :: "env \<Rightarrow> symbol \<Rightarrow> monitor \<Rightarrow> real option result" where
  "update_data e symb s =
     (case fetch_price e symb s of
        (None, s1) \<Rightarrow> (Inr None, s1)
      | (Some (t, price), s1) \<Rightarrow>
          if price \<noteq> 0 then
            (let s2 = s1\<lparr>data := (data s1)(symb \<mapsto> append_row (t, price) (data s1 symb))\<rparr>;
                 up = threshold_get s2 symb upper;
                 lo = threshold_get s2 symb lower
             in bind (case up of
                        Some u \<Rightarrow> if u \<noteq> 0 \<and> price > u then raise_alert e symb price Upper u s2
                                  else (Inr (), s2)
                      | None \<Rightarrow> (Inr (), s2))
                  (\<lambda>_ s3.
                     bind (case lo of
                             Some l \<Rightarrow> if l \<noteq> 0 \<and> price < l then raise_alert e symb price Lower l s3
                                       else (Inr (), s3)
                           | None \<Rightarrow> (Inr (), s3))
                       (\<lambda>_ s4. (Inr (Some price), s4))))
          else (Inr None, s1))"

section \<open>\<open>update_chart\<close>\<close>

text \<open>
  \<open>Series.rolling(window=w).mean()\<close> of pandas: one value for each index, undefined (NaN,
  here \<open>None\<close>) while fewer than \<open>w\<close> values end at the index, otherwise the mean of the
  \<open>w\<close> values ending there.
\<close>

definition rolling_mean :: "nat \<Rightarrow> real list \<Rightarrow> real option list" where
  "rolling_mean w xs =
     map (\<lambda>i. if Suc i < w then None
               else Some (sum_list (take w (drop (Suc i - w) xs)) / real w))
       [0..<length xs]"

text \<open>
  What is drawn: the price line, the 5-period moving average, and a horizontal line for
  each threshold whose value is true. Nothing is drawn for an absent or empty history.
\<close>

definition update_chart :: "symbol \<Rightarrow> monitor \<Rightarrow> monitor" where
  "update_chart symb s =
     (case data s symb of
        None \<Rightarrow> s
      | Some [] \<Rightarrow> s
      | Some df \<Rightarrow>
          (let up = threshold_get s symb upper; lo = threshold_get s symb lower
           in s\<lparr>canvas := Some \<lparr>points = df, ma = rolling_mean 5 (map snd df),
                   upper_line = (if truthy up then up else None),
                   lower_line = (if truthy lo then lo else None)\<rparr>\<rparr>))"

section \<open>\<open>monitoring_loop\<close>: one iteration\<close>

text \<open>
  \<open>time.sleep(d)\<close> raises \<open>ValueError\<close> for a negative \<open>d\<close>, and \<open>OverflowError\<close> or
  \<open>OSError\<close> for a \<open>d\<close> beyond what the clock takes.
\<close>

definition sleep :: "env \<Rightarrow> int \<Rightarrow> monitor \<Rightarrow> unit result" where
  "sleep e d s =
     (if d < 0 then (Inl (Exception ''sleep length must be non-negative''), s)
      else if sleep_max e < d then (Inl (Exception ''sleep length is too large''), s)
      else (Inr (), s\<lparr>slept := slept s @ [d]\<rparr>))"

text \<open>The body of the \<open>while\<close>: lines 233 to 237.\<close>

definition loop_body :: "env \<Rightarrow> symbol \<Rightarrow> int \<Rightarrow> monitor \<Rightarrow> unit result" where
  "loop_body e symb interval s =
     bind (update_data e symb s)
       (\<lambda>price s1.
          sleep e interval
            (case price of
               Some p \<Rightarrow>
                 if p \<noteq> 0 then update_chart symb (s1\<lparr>status_var := Monitoring symb p\<rparr>)
                 else s1
             | None \<Rightarrow> s1))"

text \<open>Lines 239 to 241, after the loop.\<close>

definition loop_exit :: "monitor \<Rightarrow> monitor" where
  "loop_exit s = s\<lparr>status_var := Idle, start_button := True, stop_button := False\<rparr>"

section \<open>\<open>start_monitoring\<close>: the validation\<close>

text \<open>\<open>str.upper()\<close> on ASCII text.\<close>

definition upper_char :: "char \<Rightarrow> char" where
  "upper_char c =
     (let n = (of_char c :: nat) in if 97 \<le> n \<and> n \<le> 122 then char_of (n - 32) else c)"

definition upper_str :: "string \<Rightarrow> string" where
  "upper_str = map upper_char"

text \<open>\<open>float(entry.get()) if entry.get() else None\<close>; \<open>Inl\<close> is the \<open>ValueError\<close>.\<close>

definition parse_threshold :: "env \<Rightarrow> string \<Rightarrow> exn + real option" where
  "parse_threshold e txt =
     (if txt = [] then Inr None
      else case py_float e txt of
             None \<Rightarrow> Inl (Exception ''could not convert string to float'')
           | Some v \<Rightarrow> Inr (Some v))"

text \<open>
  Lines 245 to 258. \<open>Inl\<close> is the text of the error box, after which the method
  returns; \<open>Inr\<close> is the symbol and the two thresholds the method goes on with.
\<close>

definition start_validation :: "env \<Rightarrow> monitor \<Rightarrow> string + (symbol \<times> real option \<times> real option)" where
  "start_validation e s =
     (let symb = upper_str (symbol_entry s)
      in if symb = [] then Inl ''Please enter a stock symbol''
         else case parse_threshold e (upper_entry s) of
                Inl x \<Rightarrow> Inl ''Thresholds must be valid numbers''
              | Inr up \<Rightarrow>
                  (case parse_threshold e (lower_entry s) of
                     Inl x \<Rightarrow> Inl ''Thresholds must be valid numbers''
                   | Inr lo \<Rightarrow>
                       if truthy up \<and> truthy lo \<and> the up \<le> the lo
                       then Inl ''Upper threshold must be greater than lower threshold''
                       else Inr (symb, up, lo)))"

section \<open>The two threads\<close>

text \<open>
  \<open>start_monitoring\<close>, \<open>stop_monitoring\<close> and \<open>on_closing\<close> run on the thread of the Tk main
  loop, one callback at a time; \<open>monitoring_loop\<close> runs on a \<open>threading.Thread\<close>. The
  system is the object, the threads created so far (the last one is \<open>self.thread\<close>; the
  attribute is absent while the list is empty), and the place the main thread is at. Steps
  of the threads interleave in any order.
\<close>

text \<open>
  Where a monitoring thread is: before line 229, at the test of the \<open>while\<close>, past the
  test and about to run the body, inside \<open>time.sleep(interval)\<close>, past the loop, or
  terminated. The symbol and the interval are the thread's local variables.
\<close>

datatype tstate =
  Starting
| LoopTest symbol int
| InBody symbol int
| Sleeping symbol int
| Exiting
| Exited

text \<open>
  One step of a monitoring thread. \<open>int(self.interval_var.get())\<close> may raise, and so may
  the body; an exception that is not caught terminates the thread. The test of the
  \<open>while\<close> reads \<open>self.running\<close>; the body runs after the test, so the flag may change in
  between. A terminated thread has no step.
\<close>

fun thread_step :: "env \<Rightarrow> tstate \<Rightarrow> monitor \<Rightarrow> (tstate \<times> monitor) option" where
  "thread_step e Starting m =
     Some (case py_int e (interval_var m) of
             None \<Rightarrow> Exited
           | Some interval \<Rightarrow> LoopTest (upper_str (symbol_entry m)) interval, m)"
| "thread_step e (LoopTest symb interval) m =
     Some (if running m \<and> symb \<noteq> [] then InBody symb interval else Exiting, m)"
| "thread_step e (InBody symb interval) m =
     (case loop_body e symb interval m of
        (Inr u, m') \<Rightarrow> Some (Sleeping symb interval, m')
      | (Inl x, m') \<Rightarrow> Some (Exited, m'))"
| "thread_step e (Sleeping symb interval) m = Some (LoopTest symb interval, m)"
| "thread_step e Exiting m = Some (Exited, loop_exit m)"
| "thread_step e Exited m = None"

text \<open>Who called \<open>stop_monitoring\<close>, which decides where the main thread goes on.\<close>

datatype caller = FromStart | FromButton | FromClosing

text \<open>
  Where the main thread is: in the main loop waiting for an event; inside
  \<open>stop_monitoring\<close> after \<open>self.running = False\<close>, at the \<open>join\<close>; in
  \<open>start_monitoring\<close> at line 263; or after \<open>self.root.destroy()\<close>.
\<close>

datatype main_pc = Mainloop | Stopping caller | Launching | Destroyed

record system =
  mon :: monitor
  threads :: "tstate list"
  pc :: main_pc

datatype label =
  Edit
| Configure
| Start_rejected
| Start_accepted
| Stop_called caller
| Stop_returned caller
| Launched
| Thread nat

fun after_stop :: "caller \<Rightarrow> main_pc" where
  "after_stop FromStart = Launching"
| "after_stop FromButton = Mainloop"
| "after_stop FromClosing = Destroyed"

text \<open>
  The steps. In the main loop the user may edit the entries, save an e-mail configuration,
  or trigger \<open>start_monitoring\<close>, \<open>stop_monitoring\<close> or \<open>on_closing\<close> (whatever the state
  of the buttons, so a direct call of the methods is covered). \<open>Thread.join()\<close> returns
  once the thread has terminated; without the attribute \<open>thread\<close> there is no join. A
  monitoring thread takes its next step, or is terminated where it stands by an exception
  of a call the model takes to succeed (a widget, the chart).
\<close>

inductive step :: "env \<Rightarrow> system \<Rightarrow> label \<Rightarrow> system \<Rightarrow> bool" for e :: env where
  edit:
    "pc s = Mainloop \<Longrightarrow>
     step e s Edit
       (s\<lparr>mon := (mon s)\<lparr>symbol_entry := a, upper_entry := b, lower_entry := c,
                          interval_var := d\<rparr>\<rparr>)"
| configure:
    "pc s = Mainloop \<Longrightarrow>
     step e s Configure (s\<lparr>mon := (mon s)\<lparr>email_config := Some cfg\<rparr>\<rparr>)"
| start_rejected:
    "pc s = Mainloop \<Longrightarrow> start_validation e (mon s) = Inl msg \<Longrightarrow>
     step e s Start_rejected s"
| start_running:
    "pc s = Mainloop \<Longrightarrow> start_validation e (mon s) = Inr (symb, up, lo) \<Longrightarrow>
     running (mon s) \<Longrightarrow>
     step e s Start_accepted
       (s\<lparr>mon := (mon s)\<lparr>thresholds := (thresholds (mon s))(symb \<mapsto> \<lparr>upper = up, lower = lo\<rparr>),
                          running := False\<rparr>,
          pc := Stopping FromStart\<rparr>)"
| start_idle:
    "pc s = Mainloop \<Longrightarrow> start_validation e (mon s) = Inr (symb, up, lo) \<Longrightarrow>
     \<not> running (mon s) \<Longrightarrow>
     step e s Start_accepted
       (s\<lparr>mon := (mon s)\<lparr>thresholds := (thresholds (mon s))(symb \<mapsto> \<lparr>upper = up, lower = lo\<rparr>)\<rparr>,
          pc := Launching\<rparr>)"
| launch:
    "pc s = Launching \<Longrightarrow>
     step e s Launched
       (s\<lparr>mon := (mon s)\<lparr>running := True, start_button := False, stop_button := True\<rparr>,
          threads := threads s @ [Starting], pc := Mainloop\<rparr>)"
| stop_click:
    "pc s = Mainloop \<Longrightarrow>
     step e s (Stop_called FromButton)
       (s\<lparr>mon := (mon s)\<lparr>running := False\<rparr>, pc := Stopping FromButton\<rparr>)"
| close_click:
    "pc s = Mainloop \<Longrightarrow>
     step e s (Stop_called FromClosing)
       (s\<lparr>mon := (mon s)\<lparr>running := False\<rparr>, pc := Stopping FromClosing\<rparr>)"
| join:
    "pc s = Stopping c \<Longrightarrow> threads s = [] \<or> last (threads s) = Exited \<Longrightarrow>
     step e s (Stop_returned c) (s\<lparr>pc := after_stop c\<rparr>)"
| thread:
    "i < length (threads s) \<Longrightarrow> thread_step e (threads s ! i) (mon s) = Some (t', m') \<Longrightarrow>
     step e s (Thread i) (s\<lparr>mon := m', threads := (threads s)[i := t']\<rparr>)"
| thread_dies:
    "i < length (threads s) \<Longrightarrow> threads s ! i \<noteq> Exited \<Longrightarrow>
     step e s (Thread i) (s\<lparr>threads := (threads s)[i := Exited]\<rparr>)"

definition initial :: system where
  "initial = \<lparr>mon = init, threads = [], pc = Mainloop\<rparr>"

inductive reachable :: "env \<Rightarrow> system \<Rightarrow> bool" for e :: env where
  reachable_initial: "reachable e initial"
| reachable_step: "reachable e s \<Longrightarrow> step e s l s' \<Longrightarrow> reachable e s'"

text \<open>Any number of steps.\<close>

inductive steps :: "env \<Rightarrow> system \<Rightarrow> system \<Rightarrow> bool" for e :: env where
  steps_refl: "steps e s s"
| steps_step: "steps e s s' \<Longrightarrow> step e s' l s'' \<Longrightarrow> steps e s s''"

section \<open>Vocabulary of the statements\<close>

text \<open>
  A failed attempt of \<open>fetch_price\<close> is one that does not return: the call raised, or the
  table was empty.
\<close>

fun is_failure :: "response \<Rightarrow> bool" where
  "is_failure (Raises x) = True"
| "is_failure (Table rows) = (rows = [])"

text \<open>The exceptions among some answers of the provider, in order.\<close>

fun raised :: "response list \<Rightarrow> exn list" where
  "raised [] = []"
| "raised (Raises x # rs) = x # raised rs"
| "raised (Table t # rs) = raised rs"

text \<open>The answers of the provider to calls number \<open>c\<close> to \<open>c + k - 1\<close>.\<close>

definition answers :: "env \<Rightarrow> symbol \<Rightarrow> nat \<Rightarrow> nat \<Rightarrow> response list" where
  "answers e symb c k = map (get_intraday e symb) [c..<c + k]"

text \<open>
  The loop calls \<open>update_data\<close> once in each iteration: the object after \<open>n\<close> calls in a
  row for one symbol.
\<close>

fun updates :: "env \<Rightarrow> symbol \<Rightarrow> nat \<Rightarrow> monitor \<Rightarrow> monitor" where
  "updates e symb 0 s = s"
| "updates e symb (Suc n) s = updates e symb n (snd (update_data e symb s))"

text \<open>
  The points those \<open>n\<close> calls were given by \<open>fetch_price\<close> with a price that is true, in
  the order of the calls: the points an append is due for.
\<close>

fun fetched :: "env \<Rightarrow> symbol \<Rightarrow> nat \<Rightarrow> monitor \<Rightarrow> row list" where
  "fetched e symb 0 s = []"
| "fetched e symb (Suc n) s =
     (case fst (fetch_price e symb s) of
        Some (t, price) \<Rightarrow> if price \<noteq> 0 then [(t, price)] else []
      | None \<Rightarrow> [])
     @ fetched e symb n (snd (update_data e symb s))"

text \<open>A thread that has not terminated.\<close>

definition live :: "tstate \<Rightarrow> bool" where
  "live t = (t \<noteq> Exited)"

text \<open>
  What holds of every system that can be reached: every thread but \<open>self.thread\<close> has
  terminated; \<open>self.thread\<close> too when the main thread is past a join or idle with the flag
  cleared; and the flag is cleared while the main thread is inside \<open>stop_monitoring\<close>.
\<close>

definition invariant :: "system \<Rightarrow> bool" where
  "invariant s =
     ((\<forall>t \<in> set (butlast (threads s)). \<not> live t)
      \<and> ((pc s = Launching \<or> pc s = Destroyed \<or> (pc s = Mainloop \<and> \<not> running (mon s)))
           \<longrightarrow> (\<forall>t \<in> set (threads s). \<not> live t))
      \<and> (\<forall>c. pc s = Stopping c \<longrightarrow> \<not> running (mon s)))"

section \<open>The retries of \<open>fetch_price\<close>\<close>

lemma answers_Suc:
  "answers e symb c (Suc k) = get_intraday e symb c # answers e symb (Suc c) k"
  by (simp del: upt_Suc add: answers_def upt_conv_Cons)

text \<open>Attempts that all fail: every one is made, and nothing is returned.\<close>

lemma fetch_attempts_failures:
  "\<forall>r \<in> set (answers e symb (calls s) n). is_failure r \<Longrightarrow>
   fetch_attempts e symb n s =
     (None, s\<lparr>calls := calls s + n,
              log := log s @ map (Fetch_error symb) (raised (answers e symb (calls s) n)),
              slept := slept s @ map (\<lambda>x. 2) (raised (answers e symb (calls s) n))\<rparr>)"
proof (induction n arbitrary: s)
  case 0
  then show ?case by (simp add: answers_def)
next
  case (Suc n)
  show ?case
  proof (cases "get_intraday e symb (calls s)")
    case (Raises x)
    let ?s = "s\<lparr>calls := Suc (calls s), log := log s @ [Fetch_error symb x],
                slept := slept s @ [2]\<rparr>"
    have "\<forall>r \<in> set (answers e symb (calls ?s) n). is_failure r"
      using Suc.prems by (simp add: answers_Suc)
    from Suc.IH [OF this] show ?thesis
      using Raises by (simp add: answers_Suc)
  next
    case (Table t)
    then have empty: "t = []"
      using Suc.prems by (simp add: answers_Suc)
    let ?s = "s\<lparr>calls := Suc (calls s)\<rparr>"
    have "\<forall>r \<in> set (answers e symb (calls ?s) n). is_failure r"
      using Suc.prems by (simp add: answers_Suc)
    from Suc.IH [OF this] show ?thesis
      using Table empty by (simp add: answers_Suc)
  qed
qed

text \<open>\<open>k\<close> failed attempts and then a table with a row, all within the attempts allowed.\<close>

lemma fetch_attempts_success:
  "k < n \<Longrightarrow> \<forall>r \<in> set (answers e symb (calls s) k). is_failure r \<Longrightarrow>
   get_intraday e symb (calls s + k) = Table (row # rows) \<Longrightarrow>
   fetch_attempts e symb n s =
     (Some row, s\<lparr>calls := calls s + k + 1,
              log := log s @ map (Fetch_error symb) (raised (answers e symb (calls s) k)),
              slept := slept s @ map (\<lambda>x. 2) (raised (answers e symb (calls s) k))\<rparr>)"
proof (induction n arbitrary: s k)
  case 0
  then show ?case by simp
next
  case (Suc n)
  show ?case
  proof (cases k)
    case 0
    then show ?thesis
      using Suc.prems by (simp add: answers_def)
  next
    case (Suc k')
    have less: "k' < n"
      using Suc.prems Suc by simp
    show ?thesis
    proof (cases "get_intraday e symb (calls s)")
      case (Raises x)
      let ?s = "s\<lparr>calls := Suc (calls s), log := log s @ [Fetch_error symb x],
                  slept := slept s @ [2]\<rparr>"
      have failures: "\<forall>r \<in> set (answers e symb (calls ?s) k'). is_failure r"
        using Suc.prems Suc by (simp add: answers_Suc)
      have success: "get_intraday e symb (calls ?s + k') = Table (row # rows)"
        using Suc.prems Suc by simp
      from Suc.IH [OF less failures success] show ?thesis
        using Raises Suc by (simp add: answers_Suc)
    next
      case (Table t)
      then have empty: "t = []"
        using Suc.prems Suc by (simp add: answers_Suc)
      let ?s = "s\<lparr>calls := Suc (calls s)\<rparr>"
      have failures: "\<forall>r \<in> set (answers e symb (calls ?s) k'). is_failure r"
        using Suc.prems Suc by (simp add: answers_Suc)
      have success: "get_intraday e symb (calls ?s + k') = Table (row # rows)"
        using Suc.prems Suc by simp
      from Suc.IH [OF less failures success] show ?thesis
        using Table empty Suc by (simp add: answers_Suc)
    qed
  qed
qed

text \<open>
  C5, as the code has it. Let the first \<open>k \<le> 3\<close> answers of the provider be failures
  (an exception or an empty table), followed, when \<open>k < 3\<close>, by a table with a row. Then
  \<open>fetch_price\<close> makes \<open>k + 1\<close> calls (3 when \<open>k = 3\<close>), returns the first row of that table
  (the unavailable result \<open>None\<close> when \<open>k = 3\<close>), and for each attempt that raised, in
  order, it has logged the error and slept 2 seconds, also after the third. An empty table
  uses up an attempt and leaves no log entry and no sleep. The result is a value in every
  case: the handler catches what the attempt raises.
\<close>

theorem fetch_price_retry:
  assumes "k \<le> 3"
    and "\<forall>r \<in> set (answers e symb (calls s) k). is_failure r"
    and "k < 3 \<Longrightarrow> get_intraday e symb (calls s + k) = Table (row # rows)"
  shows "fetch_price e symb s =
           (if k < 3 then Some row else None,
            s\<lparr>calls := calls s + (if k < 3 then k + 1 else 3),
              log := log s @ map (Fetch_error symb) (raised (answers e symb (calls s) k)),
              slept := slept s @ map (\<lambda>x. 2) (raised (answers e symb (calls s) k))\<rparr>)"
proof (cases "k < 3")
  case True
  with assms(3) have "get_intraday e symb (calls s + k) = Table (row # rows)" .
  from fetch_attempts_success [OF True assms(2) this] True show ?thesis
    by (simp add: fetch_price_def)
next
  case False
  with assms(1) have "k = 3" by simp
  with fetch_attempts_failures [of e symb s 3] assms(2) show ?thesis
    by (simp add: fetch_price_def)
qed

text \<open>One exception, then a quote: one log entry, one sleep of 2 seconds, two calls.\<close>

theorem fetch_price_retry_witness:
  "fetch_price
     \<lparr>get_intraday =
        (\<lambda>symb n. if n = 0 then Raises (Exception ''timeout'') else Table [(7, 101.5)]),
      smtp = (\<lambda>n. Delivered), py_float = (\<lambda>t. None), py_int = (\<lambda>t. None),
      sleep_max = 9223372035\<rparr>
     ''AAPL'' init =
   (Some (7, 101.5),
    init\<lparr>calls := 2, log := [Fetch_error ''AAPL'' (Exception ''timeout'')], slept := [2]\<rparr>)"
  using fetch_price_retry [of 1
     "\<lparr>get_intraday =
        (\<lambda>symb n. if n = 0 then Raises (Exception ''timeout'') else Table [(7, 101.5)]),
      smtp = (\<lambda>n. Delivered), py_float = (\<lambda>t. None), py_int = (\<lambda>t. None),
      sleep_max = 9223372035\<rparr>"
     "''AAPL''" init "(7, 101.5)" "[]"]
  by (simp add: answers_def init_def)

text \<open>
  C5 as stated fails on an empty table: the first attempt fails, the second returns the
  quote, and nothing was logged and no sleep was made in between.
\<close>

theorem fetch_price_empty_counterexample:
  "is_failure (Table [])
   \<and> fetch_price
       \<lparr>get_intraday = (\<lambda>symb n. if n = 0 then Table [] else Table [(7, 101.5)]),
        smtp = (\<lambda>n. Delivered), py_float = (\<lambda>t. None), py_int = (\<lambda>t. None),
      sleep_max = 9223372035\<rparr>
       ''AAPL'' (init\<lparr>log := [], slept := []\<rparr>) =
     (Some (7, 101.5), init\<lparr>log := [], slept := [], calls := 2\<rparr>)"
  by (simp add: fetch_price_def init_def numeral_3_eq_3)

section \<open>The append of \<open>update_data\<close>\<close>

lemma tail_rows_tail_rows_append:
  "tail_rows n (tail_rows n xs @ [r]) = tail_rows n (xs @ [r])"
  by (cases "length xs \<le> n") (simp_all add: tail_rows_def Suc_diff_le)

lemma foldl_append_row:
  "foldl (\<lambda>h r. Some (append_row r h)) (Some (tail_rows 50 xs)) rs = Some (tail_rows 50 (xs @ rs))"
proof (induction rs arbitrary: xs)
  case Nil
  show ?case by simp
next
  case (Cons r rs)
  have "append_row r (Some (tail_rows 50 xs)) = tail_rows 50 (xs @ [r])"
    by (simp add: append_row_def tail_rows_tail_rows_append)
  with Cons.IH [of "xs @ [r]"] show ?case by simp
qed

text \<open>
  The append alone: the points \<open>rs\<close> appended one after the other to an absent history
  leave exactly the last \<open>min (length rs) 50\<close> of them, in the order of insertion.
\<close>

lemma append_row_keeps_last_50:
  "foldl (\<lambda>h r. Some (append_row r h)) None rs =
     (if rs = [] then None else Some (drop (length rs - 50) rs))
   \<and> length (drop (length rs - 50) rs) = min (length rs) 50
   \<and> length (append_row r h) \<le> 50"
proof -
  have "foldl (\<lambda>h r. Some (append_row r h)) None rs =
     (if rs = [] then None else Some (drop (length rs - 50) rs))"
  proof (cases rs)
    case Nil
    then show ?thesis by simp
  next
    case (Cons r' rs')
    have "append_row r' None = tail_rows 50 [r']"
      by (simp add: append_row_def)
    with foldl_append_row [of "[r']" rs'] Cons show ?thesis
      by (simp add: tail_rows_def)
  qed
  moreover have "length (drop (length rs - 50) rs) = min (length rs) 50"
    by simp
  moreover have "length (append_row r h) \<le> 50"
    by (simp add: append_row_def tail_rows_def)
  ultimately show ?thesis by blast
qed

section \<open>The moving average of \<open>update_chart\<close>\<close>

lemma take_5_drop:
  assumes "4 \<le> i" and "i < length xs"
  shows "take 5 (drop (i - 4) xs) = [xs ! (i - 4), xs ! (i - 3), xs ! (i - 2), xs ! (i - 1), xs ! i]"
proof -
  obtain k where i: "i = k + 4"
    using assms(1) by (metis le_add_diff_inverse2)
  have unfold: "\<And>j. j < length xs \<Longrightarrow> drop j xs = xs ! j # drop (Suc j) xs"
    by (simp add: Cons_nth_drop_Suc)
  have "drop k xs =
      xs ! k # xs ! (k + 1) # xs ! (k + 2) # xs ! (k + 3) # xs ! (k + 4) # drop (k + 5) xs"
    using assms(2) i by (simp add: unfold numeral_eq_Suc)
  then show ?thesis
    using i by (simp add: numeral_eq_Suc)
qed

lemma rolling_mean_nth:
  assumes "i < length xs"
  shows "rolling_mean 5 xs ! i =
           (if i < 4 then None
            else Some ((xs ! (i - 4) + xs ! (i - 3) + xs ! (i - 2) + xs ! (i - 1) + xs ! i) / 5))"
proof (cases "i < 4")
  case True
  with assms show ?thesis by (simp add: rolling_mean_def)
next
  case False
  then have four: "4 \<le> i" by simp
  have "Suc i - 5 = i - 4" by simp
  with take_5_drop [OF four assms] False assms show ?thesis
    by (simp add: rolling_mean_def)
qed

text \<open>
  C7. The moving average has one entry for each point; the entry is undefined at the
  indices 0 to 3, and from index 4 on it is the mean of the five prices ending at the index.
  On 10, 20, 30, 40, 50, 60 it is undefined four times, then 30 and 40. It is the series
  \<open>update_chart\<close> draws for a non-empty history. (Means are exact here; pandas computes
  them in floating point.)
\<close>

theorem moving_average_window_5:
  "length (rolling_mean 5 xs) = length xs
   \<and> (\<forall>i<length xs. rolling_mean 5 xs ! i =
         (if i < 4 then None
          else Some ((xs ! (i - 4) + xs ! (i - 3) + xs ! (i - 2) + xs ! (i - 1) + xs ! i) / 5)))
   \<and> rolling_mean 5 [10, 20, 30, 40, 50, 60] = [None, None, None, None, Some 30, Some 40]
   \<and> (\<forall>df. data s symb = Some df \<and> df \<noteq> [] \<longrightarrow>
         map_option ma (canvas (update_chart symb s)) = Some (rolling_mean 5 (map snd df)))"
proof -
  have "length (rolling_mean 5 xs) = length xs"
    by (simp add: rolling_mean_def)
  moreover have "\<forall>i<length xs. rolling_mean 5 xs ! i =
         (if i < 4 then None
          else Some ((xs ! (i - 4) + xs ! (i - 3) + xs ! (i - 2) + xs ! (i - 1) + xs ! i) / 5))"
    using rolling_mean_nth by blast
  moreover have "rolling_mean 5 [10, 20, 30, 40, 50, 60] = [None, None, None, None, Some 30, Some 40]"
    by (simp add: rolling_mean_def upt_rec)
  moreover have "\<forall>df. data s symb = Some df \<and> df \<noteq> [] \<longrightarrow>
         map_option ma (canvas (update_chart symb s)) = Some (rolling_mean 5 (map snd df))"
    by (auto simp add: update_chart_def Let_def split: list.splits)
  ultimately show ?thesis by blast
qed

text \<open>On the series of the specification: index 5 is 40, index 3 is undefined.\<close>

theorem moving_average_window_5_witness:
  "rolling_mean 5 [10, 20, 30, 40, 50, 60] ! 5 = Some 40
   \<and> rolling_mean 5 [10, 20, 30, 40, 50, 60] ! 3 = None"
  using moving_average_window_5 [of "[10, 20, 30, 40, 50, 60]" init "''AAPL''"]
  by simp

section \<open>What \<open>fetch_price\<close>, \<open>send_email_alert\<close> and \<open>update_data\<close> change\<close>

lemma fetch_attempts_frame:
  "\<exists>c l sl. snd (fetch_attempts e symb n s) = s\<lparr>calls := c, log := l, slept := sl\<rparr>"
proof (induction n arbitrary: s)
  case 0
  have "s = s\<lparr>calls := calls s, log := log s, slept := slept s\<rparr>" by simp
  then show ?case by (metis fetch_attempts.simps(1) snd_conv)
next
  case (Suc n)
  show ?case
  proof (cases "get_intraday e symb (calls s)")
    case (Raises x)
    let ?s = "s\<lparr>calls := Suc (calls s), log := log s @ [Fetch_error symb x], slept := slept s @ [2]\<rparr>"
    from Suc.IH [of ?s] obtain c l sl
      where "snd (fetch_attempts e symb n ?s) = ?s\<lparr>calls := c, log := l, slept := sl\<rparr>"
      by blast
    then have "snd (fetch_attempts e symb (Suc n) s) = s\<lparr>calls := c, log := l, slept := sl\<rparr>"
      using Raises by simp
    then show ?thesis by blast
  next
    case (Table t)
    show ?thesis
    proof (cases t)
      case Nil
      let ?s = "s\<lparr>calls := Suc (calls s)\<rparr>"
      from Suc.IH [of ?s] obtain c l sl
        where "snd (fetch_attempts e symb n ?s) = ?s\<lparr>calls := c, log := l, slept := sl\<rparr>"
        by blast
      then have "snd (fetch_attempts e symb (Suc n) s) = s\<lparr>calls := c, log := l, slept := sl\<rparr>"
        using Table Nil by simp
      then show ?thesis by blast
    next
      case (Cons r rs)
      have "snd (fetch_attempts e symb (Suc n) s) =
              s\<lparr>calls := Suc (calls s), log := log s, slept := slept s\<rparr>"
        using Table Cons by simp
      then show ?thesis by blast
    qed
  qed
qed

lemma fetch_price_frame:
  "\<exists>c l sl. snd (fetch_price e symb s) = s\<lparr>calls := c, log := l, slept := sl\<rparr>"
  unfolding fetch_price_def by (rule fetch_attempts_frame)

lemma send_email_alert_returns: "fst (send_email_alert e symb price k s) = Inr ()"
  by (simp add: send_email_alert_def Let_def split: option.splits sum.splits)

lemma send_email_alert_frame:
  "\<exists>n ob l. snd (send_email_alert e symb price k s) = s\<lparr>smtp_calls := n, outbox := ob, log := l\<rparr>
     \<and> (\<exists>es. l = log s @ es)"
proof (cases "email_config s")
  case None
  have "s = s\<lparr>smtp_calls := smtp_calls s, outbox := outbox s, log := log s\<rparr>" by simp
  moreover have "log s = log s @ []" by simp
  moreover have "snd (send_email_alert e symb price k s) = s"
    using None by (simp add: send_email_alert_def)
  ultimately show ?thesis by metis
next
  case (Some cfg)
  show ?thesis
  proof (cases "smtp_session (smtp e (smtp_calls s))")
    case (Inl x)
    have "snd (send_email_alert e symb price k s) =
            s\<lparr>smtp_calls := Suc (smtp_calls s), outbox := outbox s, log := log s @ [Email_failed x]\<rparr>"
      using Some Inl by (simp add: send_email_alert_def)
    then show ?thesis by blast
  next
    case (Inr u)
    have "snd (send_email_alert e symb price k s) =
            s\<lparr>smtp_calls := Suc (smtp_calls s),
              outbox := outbox s @ [\<lparr>mail_from = sender cfg, mail_to = receiver cfg, mail_symbol = symb,
                      mail_price = price, mail_kind = k\<rparr>],
              log := log s @ [Email_sent symb]\<rparr>"
      using Some Inr by (simp add: send_email_alert_def)
    then show ?thesis by blast
  qed
qed

lemma raise_alert_returns: "fst (raise_alert e symb price k b s) = Inr ()"
  by (simp add: raise_alert_def Let_def send_email_alert_returns)

lemma raise_alert_frame:
  "\<exists>n ob es. snd (raise_alert e symb price k b s) =
      s\<lparr>alerts_list := alerts_list s @ [Alert symb price k b], smtp_calls := n, outbox := ob,
        log := log s @ Alert_info (Alert symb price k b) # es\<rparr>"
proof -
  let ?s = "s\<lparr>alerts_list := alerts_list s @ [Alert symb price k b],
               log := log s @ [Alert_info (Alert symb price k b)]\<rparr>"
  from send_email_alert_frame [of e symb price k ?s] obtain n ob l es
    where "snd (send_email_alert e symb price k ?s) = ?s\<lparr>smtp_calls := n, outbox := ob, log := l\<rparr>"
      and "l = log ?s @ es"
    by blast
  then have "snd (raise_alert e symb price k b s) =
      s\<lparr>alerts_list := alerts_list s @ [Alert symb price k b], smtp_calls := n, outbox := ob,
        log := log s @ Alert_info (Alert symb price k b) # es\<rparr>"
    by (simp add: raise_alert_def Let_def)
  then show ?thesis by blast
qed

lemma raise_alert_result:
  obtains s' es where "raise_alert e symb price k b s = (Inr (), s')"
    and "alerts_list s' = alerts_list s @ [Alert symb price k b]"
    and "log s' = log s @ Alert_info (Alert symb price k b) # es"
    and "running s' = running s" and "data s' = data s" and "status_var s' = status_var s"
    and "canvas s' = canvas s" and "thresholds s' = thresholds s"
proof -
  from raise_alert_frame [of e symb price k b s] obtain n ob es
    where "snd (raise_alert e symb price k b s) =
      s\<lparr>alerts_list := alerts_list s @ [Alert symb price k b], smtp_calls := n, outbox := ob,
        log := log s @ Alert_info (Alert symb price k b) # es\<rparr>" (is "_ = ?s'")
    by blast
  with raise_alert_returns [of e symb price k b s]
  have "raise_alert e symb price k b s = (Inr (), ?s')"
    by (simp add: prod_eq_iff)
  then show ?thesis
    by (rule that) simp_all
qed

text \<open>One threshold test of \<open>update_data\<close>, from the state it starts in.\<close>

lemma threshold_test_result:
  fixes test :: "unit result"
  assumes "test = (case bound of
                     Some b \<Rightarrow> if b \<noteq> 0 \<and> cmp b then raise_alert e symb price k b s else (Inr (), s)
                   | None \<Rightarrow> (Inr (), s))"
  obtains s' where "test = (Inr (), s')"
    and "running s' = running s" and "data s' = data s" and "status_var s' = status_var s"
    and "canvas s' = canvas s" and "thresholds s' = thresholds s"
    and "\<exists>es. log s' = log s @ es"
    and "alerts_list s' =
           alerts_list s @ (case bound of Some b \<Rightarrow> if b \<noteq> 0 \<and> cmp b then [Alert symb price k b] else []
                             | None \<Rightarrow> [])"
proof (cases "\<exists>b. bound = Some b \<and> b \<noteq> 0 \<and> cmp b")
  case True
  then obtain b where b: "bound = Some b" "b \<noteq> 0" "cmp b" by blast
  obtain s' es where r: "raise_alert e symb price k b s = (Inr (), s')"
    "alerts_list s' = alerts_list s @ [Alert symb price k b]"
    "log s' = log s @ Alert_info (Alert symb price k b) # es"
    "running s' = running s" "data s' = data s" "status_var s' = status_var s"
    "canvas s' = canvas s" "thresholds s' = thresholds s"
    by (rule raise_alert_result)
  show ?thesis
  proof (rule that [of s'])
    show "test = (Inr (), s')" using assms b r(1) by simp
    show "alerts_list s' =
           alerts_list s @ (case bound of Some b \<Rightarrow> if b \<noteq> 0 \<and> cmp b then [Alert symb price k b] else []
                             | None \<Rightarrow> [])"
      using b r(2) by simp
    show "\<exists>es. log s' = log s @ es" using r(3) by blast
  qed (use r in simp_all)
next
  case False
  then have "test = (Inr (), s)"
    using assms by (auto split: option.splits)
  moreover have "alerts_list s =
           alerts_list s @ (case bound of Some b \<Rightarrow> if b \<noteq> 0 \<and> cmp b then [Alert symb price k b] else []
                             | None \<Rightarrow> [])"
    using False by (auto split: option.splits)
  moreover have "\<exists>es. log s = log s @ es" by simp
  ultimately show ?thesis
    by (intro that [of s]) simp_all
qed

lemma update_data_result:
  obtains (unavailable) s1 where "fetch_price e symb s = (None, s1)"
      and "update_data e symb s = (Inr None, s1)"
  | (zero) t s1 where "fetch_price e symb s = (Some (t, 0), s1)"
      and "update_data e symb s = (Inr None, s1)"
  | (price) t p s1 s' where "fetch_price e symb s = (Some (t, p), s1)" and "p \<noteq> 0"
      and "update_data e symb s = (Inr (Some p), s')"
      and "running s' = running s1"
      and "data s' = (data s1)(symb \<mapsto> append_row (t, p) (data s1 symb))"
      and "status_var s' = status_var s1" and "canvas s' = canvas s1"
      and "thresholds s' = thresholds s1"
      and "\<exists>es. log s' = log s1 @ es"
      and "alerts_list s' = alerts_list s1
             @ (case threshold_get s1 symb upper of
                  Some u \<Rightarrow> if u \<noteq> 0 \<and> p > u then [Alert symb p Upper u] else [] | None \<Rightarrow> [])
             @ (case threshold_get s1 symb lower of
                  Some l \<Rightarrow> if l \<noteq> 0 \<and> p < l then [Alert symb p Lower l] else [] | None \<Rightarrow> [])"
proof (cases "fetch_price e symb s")
  case (Pair r s1)
  show ?thesis
  proof (cases r)
    case None
    with Pair show ?thesis
      by (intro unavailable [of s1]) (simp_all add: update_data_def)
  next
    case (Some row)
    obtain t p where row: "row = (t, p)" by (cases row)
    show ?thesis
    proof (cases "p = 0")
      case True
      with Pair Some row show ?thesis
        by (intro zero [of t s1]) (simp_all add: update_data_def)
    next
      case False
      let ?s2 = "s1\<lparr>data := (data s1)(symb \<mapsto> append_row (t, p) (data s1 symb))\<rparr>"
      have th: "threshold_get ?s2 symb f = threshold_get s1 symb f" for f
        by (simp add: threshold_get_def)
      obtain s3 where s3: "(case threshold_get s1 symb upper of
                     Some u \<Rightarrow> if u \<noteq> 0 \<and> p > u then raise_alert e symb p Upper u ?s2 else (Inr (), ?s2)
                   | None \<Rightarrow> (Inr (), ?s2)) = (Inr (), s3)"
        and f3: "running s3 = running ?s2" "data s3 = data ?s2" "status_var s3 = status_var ?s2"
          "canvas s3 = canvas ?s2" "thresholds s3 = thresholds ?s2" "\<exists>es. log s3 = log ?s2 @ es"
        and a3: "alerts_list s3 = alerts_list ?s2 @
           (case threshold_get s1 symb upper of
              Some u \<Rightarrow> if u \<noteq> 0 \<and> p > u then [Alert symb p Upper u] else [] | None \<Rightarrow> [])"
        by (rule threshold_test_result [OF refl, where cmp = "\<lambda>u. p > u"])
      obtain s4 where s4: "(case threshold_get s1 symb lower of
                     Some l \<Rightarrow> if l \<noteq> 0 \<and> p < l then raise_alert e symb p Lower l s3 else (Inr (), s3)
                   | None \<Rightarrow> (Inr (), s3)) = (Inr (), s4)"
        and f4: "running s4 = running s3" "data s4 = data s3" "status_var s4 = status_var s3"
          "canvas s4 = canvas s3" "thresholds s4 = thresholds s3" "\<exists>es. log s4 = log s3 @ es"
        and a4: "alerts_list s4 = alerts_list s3 @
           (case threshold_get s1 symb lower of
              Some l \<Rightarrow> if l \<noteq> 0 \<and> p < l then [Alert symb p Lower l] else [] | None \<Rightarrow> [])"
        by (rule threshold_test_result [OF refl, where cmp = "\<lambda>l. p < l"])
      have "update_data e symb s = (Inr (Some p), s4)"
        using Pair Some row False s3 s4
        by (simp add: update_data_def Let_def th bind_def)
      moreover have "\<exists>es. log s4 = log s1 @ es"
        using f3(6) f4(6) by auto
      ultimately show ?thesis
        using Pair Some row False f3 f4 a3 a4
        by (intro price [of t p s1 s4]) simp_all
    qed
  qed
qed


lemma fetch_price_fields:
  "running (snd (fetch_price e symb s)) = running s"
  "data (snd (fetch_price e symb s)) = data s"
  "alerts_list (snd (fetch_price e symb s)) = alerts_list s"
  "status_var (snd (fetch_price e symb s)) = status_var s"
  "canvas (snd (fetch_price e symb s)) = canvas s"
  "thresholds (snd (fetch_price e symb s)) = thresholds s"
proof -
  from fetch_price_frame [of e symb s] obtain c l sl
    where "snd (fetch_price e symb s) = s\<lparr>calls := c, log := l, slept := sl\<rparr>"
    by blast
  then show "running (snd (fetch_price e symb s)) = running s"
    "data (snd (fetch_price e symb s)) = data s"
    "alerts_list (snd (fetch_price e symb s)) = alerts_list s"
    "status_var (snd (fetch_price e symb s)) = status_var s"
    "canvas (snd (fetch_price e symb s)) = canvas s"
    "thresholds (snd (fetch_price e symb s)) = thresholds s"
    by simp_all
qed

lemma update_data_returns: "\<exists>p. fst (update_data e symb s) = Inr p"
  by (cases e symb s rule: update_data_result) simp_all

lemma update_data_running: "running (snd (update_data e symb s)) = running s"
proof (cases e symb s rule: update_data_result)
  case (unavailable s1)
  with fetch_price_fields(1) [of e symb s] show ?thesis by simp
next
  case (zero t s1)
  with fetch_price_fields(1) [of e symb s] show ?thesis by simp
next
  case (price t p s1 s')
  with fetch_price_fields(1) [of e symb s] show ?thesis by simp
qed

lemma update_chart_running: "running (update_chart symb s) = running s"
  by (simp add: update_chart_def Let_def split: option.splits list.splits)

lemma loop_body_running: "running (snd (loop_body e symb interval s)) = running s"
proof -
  obtain p s1 where u: "update_data e symb s = (Inr p, s1)"
    using update_data_returns [of e symb s] by (cases "update_data e symb s") auto
  with update_data_running [of e symb s] have "running s1 = running s" by simp
  with u show ?thesis
    by (simp add: loop_body_def bind_def sleep_def update_chart_running split: option.splits)
qed



section \<open>The history stored by \<open>update_data\<close>\<close>

lemma tail_rows_tail_rows:
  "tail_rows n (tail_rows n xs @ ys) = tail_rows n (xs @ ys)"
  by (cases "length xs \<le> n") (simp_all add: tail_rows_def add.commute)

lemma update_data_stores:
  "data (snd (update_data e symb s)) =
     (case fst (fetch_price e symb s) of
        Some (t, price) \<Rightarrow>
          if price \<noteq> 0 then (data s)(symb \<mapsto> append_row (t, price) (data s symb)) else data s
      | None \<Rightarrow> data s)"
proof (cases e symb s rule: update_data_result)
  case (unavailable s1)
  with fetch_price_fields(2) [of e symb s] show ?thesis by simp
next
  case (zero t s1)
  with fetch_price_fields(2) [of e symb s] show ?thesis by simp
next
  case (price t p s1 s')
  with fetch_price_fields(2) [of e symb s] show ?thesis by simp
qed

lemma updates_data:
  "data (updates e symb n s) x =
     (if fetched e symb n s = [] \<or> x \<noteq> symb then data s x
      else Some (tail_rows 50 ((case data s symb of None \<Rightarrow> [] | Some rows \<Rightarrow> rows)
                               @ fetched e symb n s)))"
proof (induction n arbitrary: s)
  case 0
  show ?case by simp
next
  case (Suc n)
  let ?s = "snd (update_data e symb s)"
  show ?case
  proof (cases "\<exists>t p. fst (fetch_price e symb s) = Some (t, p) \<and> p \<noteq> 0")
    case True
    then obtain t p where f: "fst (fetch_price e symb s) = Some (t, p)" "p \<noteq> 0" by blast
    let ?h = "case data s symb of None \<Rightarrow> [] | Some rows \<Rightarrow> rows"
    have d: "data ?s = (data s)(symb \<mapsto> tail_rows 50 (?h @ [(t, p)]))"
      using f by (simp add: update_data_stores append_row_def)
    have g: "fetched e symb (Suc n) s = (t, p) # fetched e symb n ?s"
      using f by simp
    show ?thesis
    proof (cases "x = symb")
      case True
      note x = this
      have "data (updates e symb (Suc n) s) symb =
          Some (tail_rows 50 (?h @ (t, p) # fetched e symb n ?s))"
      proof (cases "fetched e symb n ?s = []")
        case True
        with Suc.IH [of ?s] d x show ?thesis by simp
      next
        case False
        with Suc.IH [of ?s] d x tail_rows_tail_rows [of 50 "?h @ [(t, p)]" "fetched e symb n ?s"]
        show ?thesis by simp
      qed
      with x g show ?thesis by simp
    next
      case False
      with Suc.IH [of ?s] d show ?thesis by simp
    qed
  next
    case False
    then have "data ?s = data s"
      by (auto simp add: update_data_stores split: option.splits)
    moreover have "fetched e symb (Suc n) s = fetched e symb n ?s"
      using False by (auto split: option.splits)
    ultimately show ?thesis
      using Suc.IH [of ?s] by simp
  qed
qed

text \<open>
  C6. After any number of calls of \<open>update_data\<close> for a symbol, the history stored in
  \<open>data\<close> for the symbol is the last 50 points of what it was followed by the points
  fetched with a price that is true, in the order they were fetched: the oldest points are
  the ones dropped. From an absent history it is exactly the last
  \<open>min n 50\<close> of the \<open>n\<close> points fetched. A history that \<open>update_data\<close> has written has
  at most 50 points, and the histories of the other symbols are untouched.
\<close>

theorem stored_history_keeps_last_50:
  "data (updates e symb n s) symb =
     (if fetched e symb n s = [] then data s symb
      else Some (tail_rows 50 ((case data s symb of None \<Rightarrow> [] | Some rows \<Rightarrow> rows)
                               @ fetched e symb n s)))
   \<and> (data s symb = None \<longrightarrow>
        data (updates e symb n s) symb =
          (if fetched e symb n s = [] then None
           else Some (drop (length (fetched e symb n s) - 50) (fetched e symb n s))))
   \<and> length (drop (length (fetched e symb n s) - 50) (fetched e symb n s)) =
        min (length (fetched e symb n s)) 50
   \<and> (\<forall>h. data (snd (update_data e symb s)) symb = Some h \<and> data s symb \<noteq> Some h \<longrightarrow>
          length h \<le> 50)
   \<and> (\<forall>other. other \<noteq> symb \<longrightarrow> data (updates e symb n s) other = data s other)"
proof -
  have "data (updates e symb n s) symb =
     (if fetched e symb n s = [] then data s symb
      else Some (tail_rows 50 ((case data s symb of None \<Rightarrow> [] | Some rows \<Rightarrow> rows)
                               @ fetched e symb n s)))"
    by (simp add: updates_data)
  moreover have "data s symb = None \<longrightarrow>
        data (updates e symb n s) symb =
          (if fetched e symb n s = [] then None
           else Some (drop (length (fetched e symb n s) - 50) (fetched e symb n s)))"
    by (simp add: updates_data tail_rows_def)
  moreover have "length (drop (length (fetched e symb n s) - 50) (fetched e symb n s)) =
        min (length (fetched e symb n s)) 50"
    by simp
  moreover have "\<forall>h. data (snd (update_data e symb s)) symb = Some h \<and> data s symb \<noteq> Some h \<longrightarrow>
          length h \<le> 50"
    by (auto simp add: update_data_stores append_row_def tail_rows_def
        split: option.splits if_splits)
  moreover have "\<forall>other. other \<noteq> symb \<longrightarrow> data (updates e symb n s) other = data s other"
    by (simp add: updates_data)
  ultimately show ?thesis by blast
qed

text \<open>
  Two quotes into an absent history are both kept, in order; one quote into a history of 50
  points drops the oldest point.
\<close>

theorem stored_history_keeps_last_50_witness:
  "data (updates
     \<lparr>get_intraday = (\<lambda>symb n. Table [(n, 100 + real n)]),
      smtp = (\<lambda>n. Delivered), py_float = (\<lambda>t. None), py_int = (\<lambda>t. None),
      sleep_max = 9223372035\<rparr>
     ''AAPL'' 2 init) ''AAPL'' = Some [(0, 100), (1, 101)]
   \<and> data (updates
     \<lparr>get_intraday = (\<lambda>symb n. Table [(n, 100 + real n)]),
      smtp = (\<lambda>n. Delivered), py_float = (\<lambda>t. None), py_int = (\<lambda>t. None),
      sleep_max = 9223372035\<rparr>
     ''AAPL'' 2 init) ''MSFT'' = None
   \<and> data (updates
     \<lparr>get_intraday = (\<lambda>symb n. Table [(n, 100 + real n)]),
      smtp = (\<lambda>n. Delivered), py_float = (\<lambda>t. None), py_int = (\<lambda>t. None),
      sleep_max = 9223372035\<rparr>
     ''AAPL'' 1 (init\<lparr>data := [''AAPL'' \<mapsto> replicate 50 (0, 1)]\<rparr>)) ''AAPL'' = Some (replicate 49 (0, 1) @ [(0, 100)])"
  using stored_history_keeps_last_50 [of
     "\<lparr>get_intraday = (\<lambda>symb n. Table [(n, 100 + real n)]),
      smtp = (\<lambda>n. Delivered), py_float = (\<lambda>t. None), py_int = (\<lambda>t. None),
      sleep_max = 9223372035\<rparr>"
     "''AAPL''" 2 init]
   stored_history_keeps_last_50 [of
     "\<lparr>get_intraday = (\<lambda>symb n. Table [(n, 100 + real n)]),
      smtp = (\<lambda>n. Delivered), py_float = (\<lambda>t. None), py_int = (\<lambda>t. None),
      sleep_max = 9223372035\<rparr>"
     "''AAPL''" 1 "(init\<lparr>data := [''AAPL'' \<mapsto> replicate 50 (0, 1)]\<rparr>)"]
  by (simp add: numeral_2_eq_2 fetch_price_def numeral_3_eq_3 init_def update_data_def
      bind_def threshold_get_def append_row_def tail_rows_def)

section \<open>A cycle without a price\<close>




text \<open>
  C10. A fetched price of exactly 0 is false in \<open>if price:\<close>, so \<open>update_data\<close> returns
  what it returns for the unavailable result: no point is appended, no threshold is tested,
  no alert is made, and the status text is not updated.
\<close>

theorem zero_price_is_treated_as_unavailable:
  assumes "fst (fetch_price e symb s) = Some (t, 0)"
  shows "update_data e symb s = (Inr None, snd (fetch_price e symb s))
    \<and> data (snd (update_data e symb s)) = data s
    \<and> alerts_list (snd (update_data e symb s)) = alerts_list s
    \<and> data (snd (loop_body e symb interval s)) = data s
    \<and> alerts_list (snd (loop_body e symb interval s)) = alerts_list s
    \<and> status_var (snd (loop_body e symb interval s)) = status_var s
    \<and> canvas (snd (loop_body e symb interval s)) = canvas s"
proof -
  have u: "update_data e symb s = (Inr None, snd (fetch_price e symb s))"
    using assms by (cases "fetch_price e symb s") (simp add: update_data_def)
  then have "snd (loop_body e symb interval s) = snd (fetch_price e symb s)
      \<or> snd (loop_body e symb interval s) =
          (snd (fetch_price e symb s))\<lparr>slept := slept (snd (fetch_price e symb s)) @ [interval]\<rparr>"
    by (simp add: loop_body_def bind_def sleep_def)
  with u fetch_price_fields [of e symb s] show ?thesis
    by auto
qed

text \<open>A price of 0 under a lower threshold of 5: no alert, no point, no status.\<close>

theorem zero_price_is_treated_as_unavailable_witness:
  "fst (fetch_price
       \<lparr>get_intraday = (\<lambda>symb n. Table [(7, 0)]),
        smtp = (\<lambda>n. Delivered), py_float = (\<lambda>t. None), py_int = (\<lambda>t. None),
      sleep_max = 9223372035\<rparr>
       ''AAPL'' (init\<lparr>thresholds := [''AAPL'' \<mapsto> \<lparr>upper = None, lower = Some 5\<rparr>]\<rparr>)) = Some (7, 0)
   \<and> update_data
       \<lparr>get_intraday = (\<lambda>symb n. Table [(7, 0)]),
        smtp = (\<lambda>n. Delivered), py_float = (\<lambda>t. None), py_int = (\<lambda>t. None),
      sleep_max = 9223372035\<rparr>
       ''AAPL'' (init\<lparr>thresholds := [''AAPL'' \<mapsto> \<lparr>upper = None, lower = Some 5\<rparr>]\<rparr>) =
     (Inr None,
      init\<lparr>thresholds := [''AAPL'' \<mapsto> \<lparr>upper = None, lower = Some 5\<rparr>], calls := 1\<rparr>)
   \<and> alerts_list (snd (loop_body
       \<lparr>get_intraday = (\<lambda>symb n. Table [(7, 0)]),
        smtp = (\<lambda>n. Delivered), py_float = (\<lambda>t. None), py_int = (\<lambda>t. None),
      sleep_max = 9223372035\<rparr>
       ''AAPL'' 60 (init\<lparr>thresholds := [''AAPL'' \<mapsto> \<lparr>upper = None, lower = Some 5\<rparr>]\<rparr>))) = []
   \<and> status_var (snd (loop_body
       \<lparr>get_intraday = (\<lambda>symb n. Table [(7, 0)]),
        smtp = (\<lambda>n. Delivered), py_float = (\<lambda>t. None), py_int = (\<lambda>t. None),
      sleep_max = 9223372035\<rparr>
       ''AAPL'' 60 (init\<lparr>thresholds := [''AAPL'' \<mapsto> \<lparr>upper = None, lower = Some 5\<rparr>]\<rparr>))) = Idle
   \<and> data (snd (loop_body
       \<lparr>get_intraday = (\<lambda>symb n. Table [(7, 0)]),
        smtp = (\<lambda>n. Delivered), py_float = (\<lambda>t. None), py_int = (\<lambda>t. None),
      sleep_max = 9223372035\<rparr>
       ''AAPL'' 60 (init\<lparr>thresholds := [''AAPL'' \<mapsto> \<lparr>upper = None, lower = Some 5\<rparr>]\<rparr>))) = Map.empty"
  using zero_price_is_treated_as_unavailable [of
     "\<lparr>get_intraday = (\<lambda>symb n. Table [(7, 0)]),
        smtp = (\<lambda>n. Delivered), py_float = (\<lambda>t. None), py_int = (\<lambda>t. None),
      sleep_max = 9223372035\<rparr>"
     "''AAPL''" "(init\<lparr>thresholds := [''AAPL'' \<mapsto> \<lparr>upper = None, lower = Some 5\<rparr>]\<rparr>)" 7 60]
  by (simp add: fetch_price_def numeral_3_eq_3 init_def)

section \<open>Alerts and e-mail failures\<close>

lemma loop_body_returns:
  assumes "0 \<le> interval" and "interval \<le> sleep_max e"
  shows "fst (loop_body e symb interval s) = Inr ()"
proof -
  obtain p s1 where u: "update_data e symb s = (Inr p, s1)"
    using update_data_returns [of e symb s] by (cases "update_data e symb s") auto
  with assms show ?thesis
    by (simp add: loop_body_def bind_def sleep_def split: option.splits)
qed

text \<open>
  C8. \<open>send_email_alert\<close> returns normally whatever the SMTP session does; without an
  e-mail configuration it changes nothing; a failure of any stage of the session is logged
  and nothing else. An alert (the three statements under a threshold test, with the e-mail
  last) returns normally, with its line in the alert list and in the log whatever the
  session does. \<open>update_data\<close> does not raise, and the loop goes on to its sleep (for an
  interval \<open>time.sleep\<close> accepts).
\<close>

theorem email_failure_is_swallowed:
  "fst (send_email_alert e symb price k s) = Inr ()
   \<and> (email_config s = None \<longrightarrow> send_email_alert e symb price k s = (Inr (), s))
   \<and> (email_config s \<noteq> None \<and> smtp_session (smtp e (smtp_calls s)) = Inl x \<longrightarrow>
        snd (send_email_alert e symb price k s) =
          s\<lparr>smtp_calls := Suc (smtp_calls s), log := log s @ [Email_failed x]\<rparr>)
   \<and> fst (raise_alert e symb price k b s) = Inr ()
   \<and> alerts_list (snd (raise_alert e symb price k b s)) = alerts_list s @ [Alert symb price k b]
   \<and> (\<exists>es. log (snd (raise_alert e symb price k b s)) =
              log s @ Alert_info (Alert symb price k b) # es)
   \<and> (\<exists>p. fst (update_data e symb s) = Inr p)
   \<and> (0 \<le> interval \<and> interval \<le> sleep_max e \<longrightarrow>
        thread_step e (InBody symb interval) s =
          Some (Sleeping symb interval, snd (loop_body e symb interval s)))"
proof -
  have "email_config s = None \<longrightarrow> send_email_alert e symb price k s = (Inr (), s)"
    by (simp add: send_email_alert_def)
  moreover have "email_config s \<noteq> None \<and> smtp_session (smtp e (smtp_calls s)) = Inl x \<longrightarrow>
        snd (send_email_alert e symb price k s) =
          s\<lparr>smtp_calls := Suc (smtp_calls s), log := log s @ [Email_failed x]\<rparr>"
    by (auto simp add: send_email_alert_def)
  moreover obtain s' es where "raise_alert e symb price k b s = (Inr (), s')"
    and "alerts_list s' = alerts_list s @ [Alert symb price k b]"
    and "log s' = log s @ Alert_info (Alert symb price k b) # es"
    by (rule raise_alert_result)
  moreover have "0 \<le> interval \<and> interval \<le> sleep_max e \<longrightarrow>
        thread_step e (InBody symb interval) s =
          Some (Sleeping symb interval, snd (loop_body e symb interval s))"
    using loop_body_returns [of interval e symb s]
    by (cases "loop_body e symb interval s") auto
  ultimately show ?thesis
    using send_email_alert_returns [of e symb price k s] update_data_returns [of e symb s]
    by simp
qed

text \<open>
  An unreachable SMTP host while the price 100 is above the upper threshold 90: the alert is
  in the list and in the log, the failure is logged, and the price is returned.
\<close>

theorem email_failure_is_swallowed_witness:
  "update_data
     \<lparr>get_intraday = (\<lambda>symb n. Table [(7, 100)]),
      smtp = (\<lambda>n. ConnectFails (Exception ''unreachable'')),
      py_float = (\<lambda>t. None), py_int = (\<lambda>t. None),
      sleep_max = 9223372035\<rparr>
     ''AAPL''
     (init\<lparr>thresholds := [''AAPL'' \<mapsto> \<lparr>upper = Some 90, lower = None\<rparr>],
           email_config := Some \<lparr>sender = ''a@x'', password = ''pw'', receiver = ''b@x'',
                                  smtp_server = ''smtp.gmail.com'', smtp_port = 587\<rparr>\<rparr>) =
   (Inr (Some 100),
    init\<lparr>thresholds := [''AAPL'' \<mapsto> \<lparr>upper = Some 90, lower = None\<rparr>],
         email_config := Some \<lparr>sender = ''a@x'', password = ''pw'', receiver = ''b@x'',
                                smtp_server = ''smtp.gmail.com'', smtp_port = 587\<rparr>,
         calls := 1,
         data := [''AAPL'' \<mapsto> [(7, 100)]],
         alerts_list := [Alert ''AAPL'' 100 Upper 90],
         smtp_calls := 1,
         log := [Alert_info (Alert ''AAPL'' 100 Upper 90), Email_failed (Exception ''unreachable'')]\<rparr>)"
  using email_failure_is_swallowed [of
     "\<lparr>get_intraday = (\<lambda>symb n. Table [(7, 100)]),
      smtp = (\<lambda>n. ConnectFails (Exception ''unreachable'')),
      py_float = (\<lambda>t. None), py_int = (\<lambda>t. None),
      sleep_max = 9223372035\<rparr>"
     "''AAPL''" 100 Upper
     "init\<lparr>thresholds := [''AAPL'' \<mapsto> \<lparr>upper = Some 90, lower = None\<rparr>],
           email_config := Some \<lparr>sender = ''a@x'', password = ''pw'', receiver = ''b@x'',
                                  smtp_server = ''smtp.gmail.com'', smtp_port = 587\<rparr>\<rparr>"
     "Exception ''unreachable''" 90 60]
  by (simp add: update_data_def fetch_price_def numeral_3_eq_3 init_def bind_def
      threshold_get_def append_row_def tail_rows_def raise_alert_def send_email_alert_def Let_def)

section \<open>Threshold alerts\<close>

text \<open>
  The alerts of one update with a fetched price different from zero: the upper one when the
  upper threshold is present, different from zero and below the price, then the lower one
  when the lower threshold is present, different from zero and above the price.
\<close>

lemma update_data_alerts:
  assumes "fst (fetch_price e symb s) = Some (t, p)" and "p \<noteq> 0"
  shows "alerts_list (snd (update_data e symb s)) =
           alerts_list s
           @ (case threshold_get s symb upper of
                Some u \<Rightarrow> if u \<noteq> 0 \<and> p > u then [Alert symb p Upper u] else []
              | None \<Rightarrow> [])
           @ (case threshold_get s symb lower of
                Some l \<Rightarrow> if l \<noteq> 0 \<and> p < l then [Alert symb p Lower l] else []
              | None \<Rightarrow> [])"
proof (cases e symb s rule: update_data_result)
  case (unavailable s1)
  with assms show ?thesis by simp
next
  case (zero t' s1)
  with assms show ?thesis by simp
next
  case (price t' p' s1 s')
  have "threshold_get s1 symb f = threshold_get s symb f" for f
    using price(1) fetch_price_fields(6) [of e symb s] by (simp add: threshold_get_def)
  moreover have "alerts_list s1 = alerts_list s"
    using price(1) fetch_price_fields(3) [of e symb s] by simp
  moreover have "p' = p"
    using price(1) assms(1) by simp
  ultimately show ?thesis
    using price(3,10) by (simp split: option.splits)
qed

section \<open>Thresholds of zero\<close>

text \<open>
  C3 at an upper threshold of 0.0 and a fetched price of 5.0. The threshold is present in
  the configuration and the price is above it, yet \<open>if upper and price > upper\<close> is false,
  because \<open>0.0\<close> is false: no alert line and no log entry are made.
\<close>

theorem zero_upper_threshold_never_fires:
  "update_data
     \<lparr>get_intraday = (\<lambda>symb n. Table [(7, 5)]), smtp = (\<lambda>n. Delivered),
      py_float = (\<lambda>t. None), py_int = (\<lambda>t. None),
      sleep_max = 9223372035\<rparr>
     ''AAPL'' (init\<lparr>thresholds := [''AAPL'' \<mapsto> \<lparr>upper = Some 0, lower = None\<rparr>]\<rparr>) =
   (Inr (Some 5),
    init\<lparr>thresholds := [''AAPL'' \<mapsto> \<lparr>upper = Some 0, lower = None\<rparr>],
         calls := 1, data := [''AAPL'' \<mapsto> [(7, 5)]], alerts_list := [], log := []\<rparr>)"
  by (simp add: update_data_def fetch_price_def numeral_3_eq_3 init_def bind_def
      threshold_get_def append_row_def tail_rows_def)

text \<open>
  C4 at the entries upper = "0" and lower = "5": both thresholds are present and
  upper \<open>\<le>\<close> lower, yet \<open>if upper and lower and upper <= lower\<close> is false, because
  \<open>0.0\<close> is false. The validation passes, and \<open>start_monitoring\<close> goes on to record the
  thresholds and to launch the thread.
\<close>

theorem zero_upper_passes_validation:
  "start_validation
     \<lparr>get_intraday = (\<lambda>symb n. Table []), smtp = (\<lambda>n. Delivered),
      py_float = (\<lambda>t. if t = ''0'' then Some 0 else if t = ''5'' then Some 5 else None),
      py_int = (\<lambda>t. None),
      sleep_max = 9223372035\<rparr>
     (init\<lparr>symbol_entry := ''AAPL'', upper_entry := ''0'', lower_entry := ''5''\<rparr>) =
   Inr (''AAPL'', Some 0, Some 5)"
  by (simp add: start_validation_def parse_threshold_def truthy_def upper_str_def
      upper_char_def init_def)

text \<open>
  The part of the validation that holds: an empty symbol, a threshold text that is not a
  number, or two thresholds different from zero with upper \<open>\<le>\<close> lower are rejected, and a
  rejected start changes nothing and launches nothing.
\<close>

lemma start_validation_rejects:
  assumes "upper_str (symbol_entry s) = []
      \<or> (upper_entry s \<noteq> [] \<and> py_float e (upper_entry s) = None)
      \<or> (lower_entry s \<noteq> [] \<and> py_float e (lower_entry s) = None)
      \<or> (upper_entry s \<noteq> [] \<and> lower_entry s \<noteq> [] \<and> py_float e (upper_entry s) = Some u
          \<and> py_float e (lower_entry s) = Some l \<and> u \<noteq> 0 \<and> l \<noteq> 0 \<and> u \<le> l)"
  shows "\<exists>msg. start_validation e s = Inl msg"
  using assms
  by (auto simp add: start_validation_def parse_threshold_def truthy_def Let_def
      split: option.splits)

lemma rejected_start_changes_nothing:
  assumes "start_validation e (mon s) = Inl msg" and "pc s = Mainloop"
  shows "step e s Start_rejected s" and "step e s Start_accepted s' \<Longrightarrow> False"
proof -
  show "step e s Start_rejected s"
    using assms by (simp add: step.start_rejected)
  show "step e s Start_accepted s' \<Longrightarrow> False"
    using assms(1) by (auto elim: step.cases)
qed

section \<open>Threads: what every reachable system satisfies\<close>

lemma thread_step_live: "thread_step e t m = Some (t', m') \<Longrightarrow> live t"
  by (cases t) (simp_all add: live_def)

lemma thread_step_running: "thread_step e t m = Some (t', m') \<Longrightarrow> running m' = running m"
proof (cases t)
  case (InBody symb interval)
  assume "thread_step e t m = Some (t', m')"
  with InBody have "m' = snd (loop_body e symb interval m)"
    by (auto split: prod.splits sum.splits)
  then show ?thesis by (simp add: loop_body_running)
qed (auto simp add: loop_exit_def)

lemma all_but_last:
  assumes "xs \<noteq> []"
  shows "(\<forall>t \<in> set xs. P t) = ((\<forall>t \<in> set (butlast xs). P t) \<and> P (last xs))"
proof -
  have "set xs = set (butlast xs @ [last xs])"
    using assms by simp
  then have "set xs = insert (last xs) (set (butlast xs))"
    by simp
  then show ?thesis by auto
qed

lemma invariant_initial: "invariant initial"
  by (simp add: invariant_def initial_def)

lemma invariant_thread_step:
  assumes inv: "invariant s"
    and i: "i < length (threads s)"
    and st: "thread_step e (threads s ! i) (mon s) = Some (t', m')"
  shows "invariant (s\<lparr>mon := m', threads := (threads s)[i := t']\<rparr>)"
proof -
  have live: "live (threads s ! i)"
    using st by (rule thread_step_live)
  have run: "running m' = running (mon s)"
    using st by (rule thread_step_running)
  have last: "i = length (threads s) - 1"
  proof (rule ccontr)
    assume "i \<noteq> length (threads s) - 1"
    with i have "i < length (butlast (threads s))" by simp
    then have "butlast (threads s) ! i \<in> set (butlast (threads s))"
      by (rule nth_mem)
    moreover have "butlast (threads s) ! i = threads s ! i"
      using \<open>i < length (butlast (threads s))\<close> by (simp add: nth_butlast)
    ultimately show False
      using inv live by (simp add: invariant_def)
  qed
  have some_live: "\<not> (\<forall>t \<in> set (threads s). \<not> live t)"
    using live i nth_mem by blast
  have "butlast ((threads s)[i := t']) = butlast (threads s)"
    using last by (simp add: butlast_list_update)
  with inv run some_live show ?thesis
    by (auto simp add: invariant_def)
qed

lemma invariant_thread_dies:
  assumes inv: "invariant s"
    and i: "i < length (threads s)"
    and live: "live (threads s ! i)"
  shows "invariant (s\<lparr>threads := (threads s)[i := Exited]\<rparr>)"
proof -
  have last: "i = length (threads s) - 1"
  proof (rule ccontr)
    assume "i \<noteq> length (threads s) - 1"
    with i have "i < length (butlast (threads s))" by simp
    then have "butlast (threads s) ! i \<in> set (butlast (threads s))"
      by (rule nth_mem)
    moreover have "butlast (threads s) ! i = threads s ! i"
      using \<open>i < length (butlast (threads s))\<close> by (simp add: nth_butlast)
    ultimately show False
      using inv live by (simp add: invariant_def)
  qed
  have some_live: "\<not> (\<forall>t \<in> set (threads s). \<not> live t)"
    using live i nth_mem by blast
  have "butlast ((threads s)[i := Exited]) = butlast (threads s)"
    using last by (simp add: butlast_list_update)
  with inv some_live show ?thesis
    by (auto simp add: invariant_def)
qed

lemma invariant_step:
  assumes "invariant s" and "step e s l s'"
  shows "invariant s'"
  using assms(2)
proof cases
  case (edit a b c d)
  with assms(1) show ?thesis by (simp add: invariant_def)
next
  case (configure cfg)
  with assms(1) show ?thesis by (simp add: invariant_def)
next
  case (start_rejected msg)
  with assms(1) show ?thesis by simp
next
  case (start_running symb up lo)
  with assms(1) show ?thesis by (simp add: invariant_def)
next
  case (start_idle symb up lo)
  with assms(1) show ?thesis by (simp add: invariant_def)
next
  case launch
  with assms(1) show ?thesis by (simp add: invariant_def live_def)
next
  case stop_click
  with assms(1) show ?thesis by (simp add: invariant_def)
next
  case close_click
  with assms(1) show ?thesis by (simp add: invariant_def)
next
  case (join c)
  have "\<forall>t \<in> set (threads s). \<not> live t"
  proof (cases "threads s = []")
    case True
    then show ?thesis by simp
  next
    case False
    with join(4) have "last (threads s) = Exited" by simp
    with assms(1) False show ?thesis
      by (simp add: all_but_last [OF False] invariant_def live_def)
  qed
  with assms(1) join show ?thesis
    by (cases c) (simp_all add: invariant_def)
next
  case (thread i t' m')
  with invariant_thread_step [OF assms(1) thread(3) thread(4)] show ?thesis by simp
next
  case (thread_dies i)
  from thread_dies(4) have "live (threads s ! i)"
    by (simp add: live_def)
  with invariant_thread_dies [OF assms(1) thread_dies(3)] thread_dies(2) show ?thesis by simp
qed

lemma reachable_invariant: "reachable e s \<Longrightarrow> invariant s"
  by (induction rule: reachable.induct) (auto intro: invariant_initial invariant_step)


lemma invariant_live_threads:
  assumes "invariant s"
  shows "length (filter live (threads s)) \<le> 1"
proof (cases "threads s = []")
  case True
  then show ?thesis by simp
next
  case False
  then have "threads s = butlast (threads s) @ [last (threads s)]" by simp
  then have "filter live (threads s) =
      filter live (butlast (threads s)) @ filter live [last (threads s)]"
    by (metis filter_append)
  moreover have "filter live (butlast (threads s)) = []"
    using assms by (simp add: invariant_def filter_empty_conv)
  ultimately show ?thesis by simp
qed

text \<open>A run of the system: monitoring of symbol A has started and its thread is at the test.\<close>

lemma reachable_monitoring:
  "reachable
     \<lparr>get_intraday = (\<lambda>symb n. Table []), smtp = (\<lambda>n. Delivered), py_float = (\<lambda>t. None),
      py_int = (\<lambda>t. if t = ''60'' then Some 60 else None),
      sleep_max = 9223372035\<rparr>
     \<lparr>mon = init\<lparr>symbol_entry := ''A'',
                  thresholds := [''A'' \<mapsto> \<lparr>upper = None, lower = None\<rparr>],
                  running := True, start_button := False, stop_button := True\<rparr>,
      threads = [LoopTest ''A'' 60], pc = Mainloop\<rparr>"
  (is "reachable ?e ?s4")
proof -
  let ?s1 = "\<lparr>mon = init\<lparr>symbol_entry := ''A''\<rparr>, threads = [], pc = Mainloop\<rparr>"
  let ?s2 = "\<lparr>mon = init\<lparr>symbol_entry := ''A'',
                  thresholds := [''A'' \<mapsto> \<lparr>upper = None, lower = None\<rparr>]\<rparr>,
              threads = [], pc = Launching\<rparr>"
  let ?s3 = "\<lparr>mon = init\<lparr>symbol_entry := ''A'',
                  thresholds := [''A'' \<mapsto> \<lparr>upper = None, lower = None\<rparr>],
                  running := True, start_button := False, stop_button := True\<rparr>,
              threads = [Starting], pc = Mainloop\<rparr>"
  have "step ?e initial Edit ?s1"
    using step.edit [where e = ?e and s = initial and a = "''A''" and b = "[]" and c = "[]" and d = "''60''"]
    by (simp add: initial_def init_def)
  with reachable_initial have r1: "reachable ?e ?s1"
    by (rule reachable_step)
  have "step ?e ?s1 Start_accepted ?s2"
    using step.start_idle [where e = ?e and s = ?s1 and symb = "''A''" and up = None and lo = None]
    by (simp add: init_def start_validation_def parse_threshold_def truthy_def
        upper_str_def upper_char_def)
  with r1 have r2: "reachable ?e ?s2"
    by (rule reachable_step)
  have "step ?e ?s2 Launched ?s3"
    using step.launch [where e = ?e and s = ?s2] by (simp add: init_def)
  with r2 have r3: "reachable ?e ?s3"
    by (rule reachable_step)
  have "step ?e ?s3 (Thread 0) ?s4"
    using step.thread [where e = ?e and s = ?s3 and i = 0 and t' = "LoopTest ''A'' 60" and m' = "mon ?s3"]
    by (simp add: init_def upper_str_def upper_char_def)
  with r3 show ?thesis
    by (rule reachable_step)
qed

text \<open>
  C2. In every reachable system at most one monitoring thread has not terminated. A start
  accepted while the flag is set enters \<open>stop_monitoring\<close>: the flag is cleared and the
  main thread waits at the join, with no new thread. When that stop returns, every thread
  has terminated, and only then is the new thread launched: at every launch all earlier
  threads have terminated.
\<close>

theorem at_most_one_monitoring_thread:
  assumes "reachable e s"
  shows "length (filter live (threads s)) \<le> 1
    \<and> (\<forall>s'. step e s Start_accepted s' \<and> running (mon s) \<longrightarrow>
          pc s' = Stopping FromStart \<and> \<not> running (mon s') \<and> threads s' = threads s)
    \<and> (\<forall>s'. step e s (Stop_returned FromStart) s' \<longrightarrow>
          pc s' = Launching \<and> (\<forall>t \<in> set (threads s'). \<not> live t))
    \<and> (\<forall>s'. step e s Launched s' \<longrightarrow>
          (\<forall>t \<in> set (threads s). \<not> live t) \<and> threads s' = threads s @ [Starting])"
proof -
  have inv: "invariant s"
    using assms by (rule reachable_invariant)
  have "length (filter live (threads s)) \<le> 1"
    using inv by (rule invariant_live_threads)
  moreover have "\<forall>s'. step e s Start_accepted s' \<and> running (mon s) \<longrightarrow>
          pc s' = Stopping FromStart \<and> \<not> running (mon s') \<and> threads s' = threads s"
    by (auto elim: step.cases)
  moreover have "\<forall>s'. step e s (Stop_returned FromStart) s' \<longrightarrow>
          pc s' = Launching \<and> (\<forall>t \<in> set (threads s'). \<not> live t)"
  proof (intro allI impI)
    fix s'
    assume st: "step e s (Stop_returned FromStart) s'"
    then have "invariant s'"
      using inv invariant_step by blast
    moreover have "pc s' = Launching"
      using st by (auto elim: step.cases)
    ultimately show "pc s' = Launching \<and> (\<forall>t \<in> set (threads s'). \<not> live t)"
      by (simp add: invariant_def)
  qed
  moreover have "\<forall>s'. step e s Launched s' \<longrightarrow>
          (\<forall>t \<in> set (threads s). \<not> live t) \<and> threads s' = threads s @ [Starting]"
  proof (intro allI impI)
    fix s'
    assume "step e s Launched s'"
    then have "pc s = Launching" and "threads s' = threads s @ [Starting]"
      by (auto elim: step.cases)
    with inv show "(\<forall>t \<in> set (threads s). \<not> live t) \<and> threads s' = threads s @ [Starting]"
      by (simp add: invariant_def)
  qed
  ultimately show ?thesis by blast
qed

text \<open>
  Monitoring of A is running and a start for B is accepted: the main thread waits for the
  thread of A, which sees the cleared flag and terminates; then the thread of B is launched.
\<close>

theorem at_most_one_monitoring_thread_witness:
  "reachable
     \<lparr>get_intraday = (\<lambda>symb n. Table []), smtp = (\<lambda>n. Delivered), py_float = (\<lambda>t. None),
      py_int = (\<lambda>t. if t = ''60'' then Some 60 else None),
      sleep_max = 9223372035\<rparr>
     \<lparr>mon = init\<lparr>symbol_entry := ''B'', thresholds := [''A'' \<mapsto> \<lparr>upper = None, lower = None\<rparr>],
                  running := True, start_button := False, stop_button := True\<rparr>,
      threads = [LoopTest ''A'' 60], pc = Mainloop\<rparr>
   \<and> step
     \<lparr>get_intraday = (\<lambda>symb n. Table []), smtp = (\<lambda>n. Delivered), py_float = (\<lambda>t. None),
      py_int = (\<lambda>t. if t = ''60'' then Some 60 else None),
      sleep_max = 9223372035\<rparr>
     \<lparr>mon = init\<lparr>symbol_entry := ''B'', thresholds := [''A'' \<mapsto> \<lparr>upper = None, lower = None\<rparr>],
                  running := True, start_button := False, stop_button := True\<rparr>,
      threads = [LoopTest ''A'' 60], pc = Mainloop\<rparr>
     Start_accepted
     \<lparr>mon = init\<lparr>symbol_entry := ''B'',
                  thresholds := [''A'' \<mapsto> \<lparr>upper = None, lower = None\<rparr>, ''B'' \<mapsto> \<lparr>upper = None, lower = None\<rparr>],
                  start_button := False, stop_button := True\<rparr>,
      threads = [LoopTest ''A'' 60], pc = Stopping FromStart\<rparr>
   \<and> reachable
     \<lparr>get_intraday = (\<lambda>symb n. Table []), smtp = (\<lambda>n. Delivered), py_float = (\<lambda>t. None),
      py_int = (\<lambda>t. if t = ''60'' then Some 60 else None),
      sleep_max = 9223372035\<rparr>
     \<lparr>mon = init\<lparr>symbol_entry := ''B'',
                  thresholds := [''A'' \<mapsto> \<lparr>upper = None, lower = None\<rparr>, ''B'' \<mapsto> \<lparr>upper = None, lower = None\<rparr>]\<rparr>,
      threads = [Exited], pc = Launching\<rparr>
   \<and> step
     \<lparr>get_intraday = (\<lambda>symb n. Table []), smtp = (\<lambda>n. Delivered), py_float = (\<lambda>t. None),
      py_int = (\<lambda>t. if t = ''60'' then Some 60 else None),
      sleep_max = 9223372035\<rparr>
     \<lparr>mon = init\<lparr>symbol_entry := ''B'',
                  thresholds := [''A'' \<mapsto> \<lparr>upper = None, lower = None\<rparr>, ''B'' \<mapsto> \<lparr>upper = None, lower = None\<rparr>]\<rparr>,
      threads = [Exited], pc = Launching\<rparr>
     Launched
     \<lparr>mon = init\<lparr>symbol_entry := ''B'',
                  thresholds := [''A'' \<mapsto> \<lparr>upper = None, lower = None\<rparr>, ''B'' \<mapsto> \<lparr>upper = None, lower = None\<rparr>],
                  running := True, start_button := False, stop_button := True\<rparr>,
      threads = [Exited, Starting], pc = Mainloop\<rparr>
   \<and> length (filter live [LoopTest ''A'' 60]) \<le> 1
   \<and> \<not> live Exited
   \<and> length (filter live [Exited, Starting]) \<le> 1"
  (is "reachable ?e ?u5 \<and> step ?e ?u5 _ ?u6 \<and> reachable ?e ?u9 \<and> step ?e ?u9 _ ?u10 \<and> _")
proof -
  let ?s4 = "\<lparr>mon = init\<lparr>symbol_entry := ''A'', thresholds := [''A'' \<mapsto> \<lparr>upper = None, lower = None\<rparr>],
                  running := True, start_button := False, stop_button := True\<rparr>,
      threads = [LoopTest ''A'' 60], pc = Mainloop\<rparr>"
  let ?u7 = "\<lparr>mon = init\<lparr>symbol_entry := ''B'',
                  thresholds := [''A'' \<mapsto> \<lparr>upper = None, lower = None\<rparr>, ''B'' \<mapsto> \<lparr>upper = None, lower = None\<rparr>],
                  start_button := False, stop_button := True\<rparr>,
      threads = [Exiting], pc = Stopping FromStart\<rparr>"
  let ?u8 = "\<lparr>mon = init\<lparr>symbol_entry := ''B'',
                  thresholds := [''A'' \<mapsto> \<lparr>upper = None, lower = None\<rparr>, ''B'' \<mapsto> \<lparr>upper = None, lower = None\<rparr>]\<rparr>,
      threads = [Exited], pc = Stopping FromStart\<rparr>"
  have r4: "reachable ?e ?s4"
    by (rule reachable_monitoring)
  have "step ?e ?s4 Edit ?u5"
    using step.edit [where e = ?e and s = ?s4 and a = "''B''" and b = "[]" and c = "[]"
        and d = "''60''"]
    by (simp add: init_def)
  with r4 have r5: "reachable ?e ?u5"
    by (rule reachable_step)
  have a: "step ?e ?u5 Start_accepted ?u6"
    using step.start_running [where e = ?e and s = ?u5 and symb = "''B''" and up = None
        and lo = None]
    by (simp add: init_def start_validation_def parse_threshold_def truthy_def
        upper_str_def upper_char_def)
  with r5 have r6: "reachable ?e ?u6"
    by (rule reachable_step)
  have "step ?e ?u6 (Thread 0) ?u7"
    using step.thread [where e = ?e and s = ?u6 and i = 0 and t' = Exiting and m' = "mon ?u6"]
    by (simp add: init_def)
  with r6 have r7: "reachable ?e ?u7"
    by (rule reachable_step)
  have "step ?e ?u7 (Thread 0) ?u8"
    using step.thread [where e = ?e and s = ?u7 and i = 0 and t' = Exited
        and m' = "loop_exit (mon ?u7)"]
    by (simp add: init_def loop_exit_def)
  with r7 have r8: "reachable ?e ?u8"
    by (rule reachable_step)
  have "step ?e ?u8 (Stop_returned FromStart) ?u9"
    using step.join [where e = ?e and s = ?u8 and c = FromStart] by simp
  with r8 have r9: "reachable ?e ?u9"
    by (rule reachable_step)
  have l: "step ?e ?u9 Launched ?u10"
    using step.launch [where e = ?e and s = ?u9] by (simp add: init_def)
  with r9 have r10: "reachable ?e ?u10"
    by (rule reachable_step)
  from at_most_one_monitoring_thread [OF r5] at_most_one_monitoring_thread [OF r9]
    at_most_one_monitoring_thread [OF r10] r5 a r9 l
  show ?thesis
    by (simp add: live_def)
qed

section \<open>Threads: after \<open>stop_monitoring\<close> has returned\<close>

lemma step_threads:
  assumes "step e s l s'"
  shows "length (threads s) \<le> length (threads s')
    \<and> (\<forall>i<length (threads s). \<not> live (threads s ! i) \<longrightarrow> \<not> live (threads s' ! i))"
  using assms
proof cases
  case launch
  then show ?thesis by (simp add: nth_append)
next
  case (thread i t' m')
  from thread(4) have "live (threads s ! i)"
    by (rule thread_step_live)
  with thread show ?thesis
    by (auto simp add: nth_list_update)
next
  case (thread_dies i)
  then show ?thesis
    by (auto simp add: nth_list_update live_def)
qed simp_all

lemma steps_threads:
  assumes "steps e s s'"
  shows "length (threads s) \<le> length (threads s')
    \<and> (\<forall>i<length (threads s). \<not> live (threads s ! i) \<longrightarrow> \<not> live (threads s' ! i))"
  using assms
proof (induction rule: steps.induct)
  case (steps_refl s)
  show ?case by simp
next
  case (steps_step s s' l s'')
  from step_threads [OF steps_step(2)] steps_step(3) show ?case
    by (metis order.trans order_less_le_trans)
qed

lemma step_writes:
  assumes "step e s l s'"
    and "data (mon s') \<noteq> data (mon s) \<or> calls (mon s') \<noteq> calls (mon s)"
  shows "\<exists>i. l = Thread i \<and> i < length (threads s) \<and> live (threads s ! i)"
  using assms
proof cases
  case (thread i t' m')
  from thread(4) have "live (threads s ! i)"
    by (rule thread_step_live)
  with thread show ?thesis by simp
next
  case (thread_dies i)
  with assms(2) show ?thesis by simp
qed auto

text \<open>
  C1. When \<open>stop_monitoring\<close> returns (from the button, from \<open>start_monitoring\<close> or from
  \<open>on_closing\<close>), the flag is cleared and every thread created so far has terminated.
  Those threads stay terminated in everything that follows, and a later step that changes
  the price history or calls the provider is a step of a thread created after the return,
  that is, of a later session.
\<close>

theorem stop_returns_after_thread_exit:
  assumes "reachable e s" and "step e s (Stop_returned c) s1"
    and "steps e s1 s2" and "step e s2 l s3"
  shows "\<not> running (mon s1)
    \<and> (\<forall>t \<in> set (threads s1). \<not> live t)
    \<and> (\<forall>i<length (threads s1). \<not> live (threads s3 ! i))
    \<and> (data (mon s3) \<noteq> data (mon s2) \<or> calls (mon s3) \<noteq> calls (mon s2) \<longrightarrow>
         (\<exists>i. l = Thread i \<and> length (threads s1) \<le> i))"
proof -
  have inv: "invariant s"
    using assms(1) by (rule reachable_invariant)
  have inv1: "invariant s1"
    using inv assms(2) by (rule invariant_step)
  from assms(2) have pc: "pc s = Stopping c" "mon s1 = mon s" "pc s1 = after_stop c"
    by (auto elim: step.cases)
  have flag: "\<not> running (mon s1)"
    using inv pc by (simp add: invariant_def)
  have exited: "\<forall>t \<in> set (threads s1). \<not> live t"
    using inv1 pc flag by (cases c) (simp_all add: invariant_def)
  have later: "length (threads s1) \<le> length (threads s2)"
    "\<forall>i<length (threads s1). \<not> live (threads s2 ! i)"
    using steps_threads [OF assms(3)] exited by auto
  have "\<forall>i<length (threads s1). \<not> live (threads s3 ! i)"
    using step_threads [OF assms(4)] later by auto
  moreover have "\<exists>i. l = Thread i \<and> length (threads s1) \<le> i"
    if "data (mon s3) \<noteq> data (mon s2) \<or> calls (mon s3) \<noteq> calls (mon s2)"
  proof -
    from step_writes [OF assms(4) that] obtain i
      where "l = Thread i" "i < length (threads s2)" "live (threads s2 ! i)"
      by blast
    with later(2) show ?thesis
      by (metis not_le_imp_less)
  qed
  ultimately show ?thesis
    using flag exited by blast
qed

text \<open>
  Monitoring of A is stopped with the button: the stop returns after the thread has
  terminated. Monitoring is then started again, and the fetch that follows is made by the
  second thread.
\<close>

theorem stop_returns_after_thread_exit_witness:
  "reachable
     \<lparr>get_intraday = (\<lambda>symb n. Table []), smtp = (\<lambda>n. Delivered), py_float = (\<lambda>t. None),
      py_int = (\<lambda>t. if t = ''60'' then Some 60 else None),
      sleep_max = 9223372035\<rparr>
     \<lparr>mon = init\<lparr>symbol_entry := ''A'', thresholds := [''A'' \<mapsto> \<lparr>upper = None, lower = None\<rparr>]\<rparr>,
      threads = [Exited], pc = Stopping FromButton\<rparr>
   \<and> step
     \<lparr>get_intraday = (\<lambda>symb n. Table []), smtp = (\<lambda>n. Delivered), py_float = (\<lambda>t. None),
      py_int = (\<lambda>t. if t = ''60'' then Some 60 else None),
      sleep_max = 9223372035\<rparr>
     \<lparr>mon = init\<lparr>symbol_entry := ''A'', thresholds := [''A'' \<mapsto> \<lparr>upper = None, lower = None\<rparr>]\<rparr>,
      threads = [Exited], pc = Stopping FromButton\<rparr>
     (Stop_returned FromButton)
     \<lparr>mon = init\<lparr>symbol_entry := ''A'', thresholds := [''A'' \<mapsto> \<lparr>upper = None, lower = None\<rparr>]\<rparr>,
      threads = [Exited], pc = Mainloop\<rparr>
   \<and> steps
     \<lparr>get_intraday = (\<lambda>symb n. Table []), smtp = (\<lambda>n. Delivered), py_float = (\<lambda>t. None),
      py_int = (\<lambda>t. if t = ''60'' then Some 60 else None),
      sleep_max = 9223372035\<rparr>
     \<lparr>mon = init\<lparr>symbol_entry := ''A'', thresholds := [''A'' \<mapsto> \<lparr>upper = None, lower = None\<rparr>]\<rparr>,
      threads = [Exited], pc = Mainloop\<rparr>
     \<lparr>mon = init\<lparr>symbol_entry := ''A'', thresholds := [''A'' \<mapsto> \<lparr>upper = None, lower = None\<rparr>],
                  running := True, start_button := False, stop_button := True\<rparr>,
      threads = [Exited, InBody ''A'' 60], pc = Mainloop\<rparr>
   \<and> step
     \<lparr>get_intraday = (\<lambda>symb n. Table []), smtp = (\<lambda>n. Delivered), py_float = (\<lambda>t. None),
      py_int = (\<lambda>t. if t = ''60'' then Some 60 else None),
      sleep_max = 9223372035\<rparr>
     \<lparr>mon = init\<lparr>symbol_entry := ''A'', thresholds := [''A'' \<mapsto> \<lparr>upper = None, lower = None\<rparr>],
                  running := True, start_button := False, stop_button := True\<rparr>,
      threads = [Exited, InBody ''A'' 60], pc = Mainloop\<rparr>
     (Thread 1)
     \<lparr>mon = init\<lparr>symbol_entry := ''A'', thresholds := [''A'' \<mapsto> \<lparr>upper = None, lower = None\<rparr>],
                  running := True, start_button := False, stop_button := True,
                  calls := 3, slept := [60]\<rparr>,
      threads = [Exited, Sleeping ''A'' 60], pc = Mainloop\<rparr>
   \<and> calls (init\<lparr>symbol_entry := ''A'', thresholds := [''A'' \<mapsto> \<lparr>upper = None, lower = None\<rparr>],
                  running := True, start_button := False, stop_button := True,
                  calls := 3, slept := [60]\<rparr>) \<noteq> calls (init\<lparr>symbol_entry := ''A'', thresholds := [''A'' \<mapsto> \<lparr>upper = None, lower = None\<rparr>],
                  running := True, start_button := False, stop_button := True\<rparr>)
   \<and> \<not> running (init\<lparr>symbol_entry := ''A'', thresholds := [''A'' \<mapsto> \<lparr>upper = None, lower = None\<rparr>]\<rparr>)
   \<and> \<not> live ([Exited, Sleeping ''A'' 60] ! 0)
   \<and> length [Exited] \<le> (1::nat)"
  (is "reachable ?e ?t7 \<and> step ?e ?t7 _ ?t8 \<and> steps ?e ?t8 ?t12 \<and> step ?e ?t12 _ ?t13 \<and> _")
proof -
  let ?s4 = "\<lparr>mon = init\<lparr>symbol_entry := ''A'', thresholds := [''A'' \<mapsto> \<lparr>upper = None, lower = None\<rparr>],
                  running := True, start_button := False, stop_button := True\<rparr>,
      threads = [LoopTest ''A'' 60], pc = Mainloop\<rparr>"
  let ?t5 = "\<lparr>mon = init\<lparr>symbol_entry := ''A'', thresholds := [''A'' \<mapsto> \<lparr>upper = None, lower = None\<rparr>],
                  start_button := False, stop_button := True\<rparr>,
      threads = [LoopTest ''A'' 60], pc = Stopping FromButton\<rparr>"
  let ?t6 = "\<lparr>mon = init\<lparr>symbol_entry := ''A'', thresholds := [''A'' \<mapsto> \<lparr>upper = None, lower = None\<rparr>],
                  start_button := False, stop_button := True\<rparr>,
      threads = [Exiting], pc = Stopping FromButton\<rparr>"
  let ?t9 = "\<lparr>mon = init\<lparr>symbol_entry := ''A'', thresholds := [''A'' \<mapsto> \<lparr>upper = None, lower = None\<rparr>]\<rparr>,
      threads = [Exited], pc = Launching\<rparr>"
  let ?t10 = "\<lparr>mon = init\<lparr>symbol_entry := ''A'', thresholds := [''A'' \<mapsto> \<lparr>upper = None, lower = None\<rparr>],
                  running := True, start_button := False, stop_button := True\<rparr>,
      threads = [Exited, Starting], pc = Mainloop\<rparr>"
  let ?t11 = "\<lparr>mon = init\<lparr>symbol_entry := ''A'', thresholds := [''A'' \<mapsto> \<lparr>upper = None, lower = None\<rparr>],
                  running := True, start_button := False, stop_button := True\<rparr>,
      threads = [Exited, LoopTest ''A'' 60], pc = Mainloop\<rparr>"
  have r4: "reachable ?e ?s4"
    by (rule reachable_monitoring)
  have "step ?e ?s4 (Stop_called FromButton) ?t5"
    using step.stop_click [where e = ?e and s = ?s4] by (simp add: init_def)
  with r4 have r5: "reachable ?e ?t5"
    by (rule reachable_step)
  have "step ?e ?t5 (Thread 0) ?t6"
    using step.thread [where e = ?e and s = ?t5 and i = 0 and t' = Exiting and m' = "mon ?t5"]
    by (simp add: init_def)
  with r5 have r6: "reachable ?e ?t6"
    by (rule reachable_step)
  have "step ?e ?t6 (Thread 0) ?t7"
    using step.thread [where e = ?e and s = ?t6 and i = 0 and t' = Exited
        and m' = "loop_exit (mon ?t6)"]
    by (simp add: init_def loop_exit_def)
  with r6 have r7: "reachable ?e ?t7"
    by (rule reachable_step)
  have j: "step ?e ?t7 (Stop_returned FromButton) ?t8"
    using step.join [where e = ?e and s = ?t7 and c = FromButton] by simp
  have "step ?e ?t8 Start_accepted ?t9"
    using step.start_idle [where e = ?e and s = ?t8 and symb = "''A''" and up = None and lo = None]
    by (simp add: init_def start_validation_def parse_threshold_def truthy_def
        upper_str_def upper_char_def)
  with steps_refl have p9: "steps ?e ?t8 ?t9"
    by (rule steps_step)
  have "step ?e ?t9 Launched ?t10"
    using step.launch [where e = ?e and s = ?t9] by (simp add: init_def)
  with p9 have p10: "steps ?e ?t8 ?t10"
    by (rule steps_step)
  have "step ?e ?t10 (Thread 1) ?t11"
    using step.thread [where e = ?e and s = ?t10 and i = 1 and t' = "LoopTest ''A'' 60"
        and m' = "mon ?t10"]
    by (simp add: init_def upper_str_def upper_char_def)
  with p10 have p11: "steps ?e ?t8 ?t11"
    by (rule steps_step)
  have "step ?e ?t11 (Thread 1) ?t12"
    using step.thread [where e = ?e and s = ?t11 and i = 1 and t' = "InBody ''A'' 60"
        and m' = "mon ?t11"]
    by (simp add: init_def)
  with p11 have p12: "steps ?e ?t8 ?t12"
    by (rule steps_step)
  have b: "step ?e ?t12 (Thread 1) ?t13"
    using step.thread [where e = ?e and s = ?t12 and i = 1 and t' = "Sleeping ''A'' 60"
        and m' = "mon ?t13"]
    by (simp add: init_def loop_body_def update_data_def fetch_price_def numeral_3_eq_3
        bind_def sleep_def)
  from stop_returns_after_thread_exit [OF r7 j p12 b] r7 j p12 b show ?thesis
    by (simp add: init_def live_def)
qed

end
